theory Spec2Isabelle
  imports Main
begin

section \<open>gridfs-stream: the Grid handle of lib/index.js\<close>

text \<open>
  The module is JavaScript. Values are modelled at the types the module documents for
  them: strings are \<open>string\<close>, a property that may be missing is an \<open>option\<close>
  (\<open>None\<close> is \<^verbatim>\<open>undefined\<close>), an object is a record. JavaScript's truthiness is
  written out where the code tests a value: a missing property and the empty string are
  falsy, every object (a Date, an ObjectID) is truthy. An exception is a value of
  \<open>error\<close>; a function that throws returns \<open>Inl\<close>.
\<close>

datatype error = Error string | TypeError

subsection \<open>Strings and arrays of the JavaScript library\<close>

text \<open>
  \<^verbatim>\<open>String.prototype.split(sep)\<close> for a non-empty separator: the pieces between the
  occurrences of \<open>sep\<close>, scanned from the left. \<open>split_acc\<close> carries the piece read so
  far, reversed.
\<close>

fun split_acc :: "string \<Rightarrow> string \<Rightarrow> string \<Rightarrow> string list" where
  "split_acc sep acc [] = [rev acc]"
| "split_acc sep acc (c # cs) =
     (if sep \<noteq> [] \<and> take (length sep) (c # cs) = sep
      then rev acc # split_acc sep [] (drop (length sep) (c # cs))
      else split_acc sep (c # acc) cs)"

definition split :: "string \<Rightarrow> string \<Rightarrow> string list" where
  "split s sep = split_acc sep [] s"

text \<open>\<^verbatim>\<open>Array.prototype.indexOf\<close>: the first index of \<open>x\<close>, or \<open>-1\<close>.\<close>

fun indexOf :: "'a list \<Rightarrow> 'a \<Rightarrow> int" where
  "indexOf [] x = -1"
| "indexOf (y # ys) x =
     (if y = x then 0 else (let i = indexOf ys x in if i = -1 then -1 else i + 1))"

text \<open>\<^verbatim>\<open>Array.prototype.join(sep)\<close>.\<close>

fun join :: "string list \<Rightarrow> string \<Rightarrow> string" where
  "join [] sep = []"
| "join [x] sep = x"
| "join (x # y # ys) sep = x @ sep @ join (y # ys) sep"

subsection \<open>Dates: \<^verbatim>\<open>new Date(d).toUTCString()\<close>\<close>

text \<open>
  A Date object holds a time value, the milliseconds since 1970-01-01T00:00:00Z, or is
  invalid; \<^verbatim>\<open>new Date(d)\<close> of a Date \<open>d\<close> is a Date of the same time value.
  \<open>toUTCString\<close> prints a time value as \<^verbatim>\<open>Www, dd Mmm yyyy hh:mm:ss GMT\<close> (a year
  before 0 with a sign, a year after 9999 with more digits), and an invalid date as
  \<^verbatim>\<open>Invalid Date\<close>. The functions of this subsection model the JavaScript library,
  not code of the module.
\<close>

datatype jsdate = Date int | InvalidDate

definition digit :: "int \<Rightarrow> char" where
  "digit n = ''0123456789'' ! nat (n mod 10)"

definition pad2 :: "int \<Rightarrow> string" where
  "pad2 n = [digit (n div 10), digit n]"

definition pad4 :: "int \<Rightarrow> string" where
  "pad4 n = [digit (n div 1000), digit (n div 100), digit (n div 10), digit n]"

definition year_string :: "int \<Rightarrow> string" where
  "year_string y =
     (let a = \<bar>y\<bar>;
          ds = (if a < 10000 then pad4 a
                else if a < 100000 then digit (a div 10000) # pad4 a
                else digit (a div 100000) # digit (a div 10000) # pad4 a)
      in if y < 0 then CHR ''-'' # ds else ds)"

definition day_names :: "string list" where
  "day_names = [''Sun'', ''Mon'', ''Tue'', ''Wed'', ''Thu'', ''Fri'', ''Sat'']"

definition month_names :: "string list" where
  "month_names = [''Jan'', ''Feb'', ''Mar'', ''Apr'', ''May'', ''Jun'',
                  ''Jul'', ''Aug'', ''Sep'', ''Oct'', ''Nov'', ''Dec'']"

text \<open>
  The civil date (year, month 1..12, day 1..31) of a day number counted from 1970-01-01:
  the days are counted from 0000-03-01 and cut into cycles of 400 years, centuries,
  4 years and years; the year starts in March, so that the leap day is its last day.
\<close>

definition civil_from_days :: "int \<Rightarrow> int \<times> int \<times> int" where
  "civil_from_days days =
     (let z = days + 719468;
          n400 = z div 146097;
          r400 = z mod 146097;
          n100 = min 3 (r400 div 36524);
          r100 = r400 - 36524 * n100;
          n4 = r100 div 1461;
          r4 = r100 mod 1461;
          n1 = min 3 (r4 div 365);
          doy = r4 - 365 * n1;
          mp = (5 * doy + 2) div 153;
          d = doy - (153 * mp + 2) div 5 + 1;
          m = (if mp < 10 then mp + 3 else mp - 9);
          y = 400 * n400 + 100 * n100 + 4 * n4 + n1
      in (if m \<le> 2 then y + 1 else y, m, d))"

definition toUTCString :: "jsdate \<Rightarrow> string" where
  "toUTCString d =
     (case d of
        InvalidDate \<Rightarrow> ''Invalid Date''
      | Date t \<Rightarrow>
          if \<bar>t\<bar> > 8640000000000000 then ''Invalid Date''
          else
            (let days = t div 86400000;
                 secs = (t mod 86400000) div 1000;
                 (y, m, dd) = civil_from_days days
             in day_names ! nat ((days + 4) mod 7) @ '', '' @ pad2 dd @ '' ''
                @ month_names ! nat (m - 1) @ '' '' @ year_string y @ '' ''
                @ pad2 (secs div 3600) @ '':'' @ pad2 (secs div 60 mod 60) @ '':''
                @ pad2 (secs mod 60) @ '' GMT''))"

text \<open>
  The date format of HTTP (the IMF-fixdate of RFC 7231), as a check on a string:
  a day name, a comma and a space, two digits, a month name, four digits, the time as
  three pairs of digits between colons, and \<^verbatim>\<open>GMT\<close>, separated by single spaces.
\<close>

definition is_digit :: "char \<Rightarrow> bool" where
  "is_digit c = (c \<in> set ''0123456789'')"

definition http_date :: "string \<Rightarrow> bool" where
  "http_date s =
     (length s = 29
      \<and> take 3 s \<in> set day_names \<and> take 2 (drop 3 s) = '', ''
      \<and> list_all is_digit (take 2 (drop 5 s)) \<and> s ! 7 = CHR '' ''
      \<and> take 3 (drop 8 s) \<in> set month_names \<and> s ! 11 = CHR '' ''
      \<and> list_all is_digit (take 4 (drop 12 s)) \<and> s ! 16 = CHR '' ''
      \<and> list_all is_digit (take 2 (drop 17 s)) \<and> s ! 19 = CHR '':''
      \<and> list_all is_digit (take 2 (drop 20 s)) \<and> s ! 22 = CHR '':''
      \<and> list_all is_digit (take 2 (drop 23 s)) \<and> drop 25 s = '' GMT'')"

subsection \<open>The arguments of setCacheControl\<close>

text \<open>
  A files-collection document as \<open>setCacheControl\<close> reads it: \<open>md5\<close> and
  \<open>contentType\<close> are strings, \<open>uploadDate\<close> is a Date; each may be missing.
  A request is an object whose \<open>headers\<close> property, when it has one, maps lower-case
  header names to strings. A response records the header writes made on it, in order.
\<close>

record metadata =
  md5 :: "string option"
  uploadDate :: "jsdate option"
  contentType :: "string option"

record request =
  headers :: "(string \<rightharpoonup> string) option"

record response =
  written :: "(string \<times> string) list"

text \<open>\<^verbatim>\<open>response.set(obj)\<close> writes every field of \<open>obj\<close>; \<^verbatim>\<open>response.setHeader(n, v)\<close> writes one.\<close>

definition response_set :: "response \<Rightarrow> (string \<times> string) list \<Rightarrow> response" where
  "response_set rs obj = rs\<lparr>written := written rs @ obj\<rparr>"

definition setHeader :: "response \<Rightarrow> string \<Rightarrow> string \<Rightarrow> response" where
  "setHeader rs n v = rs\<lparr>written := written rs @ [(n, v)]\<rparr>"

subsection \<open>_checkForCacheFromRequest and setCacheControl\<close>

text \<open>
  \<open>checkForCacheFromRequest\<close> is the source's \<^verbatim>\<open>_checkForCacheFromRequest\<close>. Reading a
  property of a missing \<open>headers\<close> object throws a TypeError. \<open>cache\<close> is \<^verbatim>\<open>null\<close>
  (\<open>None\<close>) when the cache-control header is missing or empty, else the array of its
  pieces.
\<close>

definition checkForCacheFromRequest :: "request \<Rightarrow> string \<Rightarrow> error + bool" where
  "checkForCacheFromRequest request match =
     (case headers request of
        None \<Rightarrow> Inl TypeError
      | Some h \<Rightarrow>
          (let cache = (case h ''cache-control'' of
                          None \<Rightarrow> None
                        | Some v \<Rightarrow> if v \<noteq> [] then Some (split v '', '') else None)
           in Inr (case cache of
                     None \<Rightarrow> True
                   | Some c \<Rightarrow>
                       indexOf c ''no-cache'' \<noteq> -1 \<or> indexOf c ''private'' \<noteq> -1
                       \<or> (case h ''if-none-match'' of
                             None \<Rightarrow> False
                           | Some v \<Rightarrow> v \<noteq> [] \<and> v \<noteq> match))))"

text \<open>
  \<open>setCacheControl\<close> returns what the call returns or throws, and the response as the
  call leaves it (a throw after \<^verbatim>\<open>response.set\<close> keeps the five headers written).
\<close>

definition cache_headers :: "string \<Rightarrow> jsdate \<Rightarrow> (string \<times> string) list" where
  "cache_headers etag d =
     [(''Pragma'', ''public''),
      (''Accept-Ranges'', ''bytes''),
      (''Cache-Control'', ''public, max-age=0''),
      (''ETag'', etag),
      (''Last-Modified'', toUTCString d)]"

definition setCacheControl ::
  "metadata option \<Rightarrow> request option \<Rightarrow> response option \<Rightarrow> (error + nat) \<times> response option" where
  "setCacheControl metadata request response =
     (case (metadata, request, response) of
        (Some m, Some rq, Some rs) \<Rightarrow>
          (case (md5 m, uploadDate m, contentType m) of
             (Some c, Some d, Some ct) \<Rightarrow>
               if c = [] \<or> ct = []
               then (Inl (Error ''metadata should have md5, uploadDate and contentType members''),
                     response)
               else
                 (let rs1 = response_set rs (cache_headers c d)
                  in case checkForCacheFromRequest rq c of
                       Inl e \<Rightarrow> (Inl e, Some rs1)
                     | Inr True \<Rightarrow> (Inr 200, Some (setHeader rs1 ''Content-Type'' ct))
                     | Inr False \<Rightarrow> (Inr 304, Some rs1))
           | _ \<Rightarrow> (Inl (Error ''metadata should have md5, uploadDate and contentType members''),
                   response))
      | _ \<Rightarrow> (Inl (Error ''Grid.setCacheControl(metadata, request, response)''), response))"

subsection \<open>The driver, the database and the Grid handle\<close>

text \<open>
  The native driver (\<^verbatim>\<open>mongo\<close>) and the open database (\<^verbatim>\<open>db\<close>) are arguments of
  the constructor; the module only calls them. They are records of what the module uses:
  \<^item> \<open>GridStore\<close>: \<^verbatim>\<open>mongo.GridStore\<close>, when the driver has one, with its constant
    \<open>DEFAULT_ROOT_COLLECTION\<close>;
  \<^item> \<open>ObjectID\<close>: the constructor \<^verbatim>\<open>new mongo.ObjectID(x)\<close>, which builds an ObjectID
    or throws;
  \<^item> \<open>mongo_Collection\<close>: \<^verbatim>\<open>mongo.Collection(db, name, null, null)\<close>;
  \<^item> \<open>db_collection\<close>: \<^verbatim>\<open>db.collection(name)\<close>;
  \<^item> \<open>db_find\<close>: what \<^verbatim>\<open>collection.find(query, cb)\<close> calls \<open>cb\<close> with: an error, no
    cursor, or a cursor over documents in the order it yields them.
  An identifier is a string or a native ObjectID (\<^verbatim>\<open>{String|ObjectId}\<close>).
\<close>

datatype objectid = ObjectId string

datatype ident = IdString string | IdObject objectid

record gridstore =
  DEFAULT_ROOT_COLLECTION :: string

datatype collection = Collection string

record driver =
  GridStore :: "gridstore option"
  ObjectID :: "ident \<Rightarrow> error + objectid"
  mongo_Collection :: "string \<Rightarrow> collection option"

text \<open>A document of a files collection: the metadata fields, \<^verbatim>\<open>_id\<close> and \<^verbatim>\<open>filename\<close>.\<close>

record file_doc = metadata +
  doc_id :: ident
  doc_filename :: string

text \<open>
  The option bag of \<open>remove\<close>, \<open>exist\<close> and \<open>findOne\<close> with the properties the
  module reads (\<open>opt_id\<close> is \<^verbatim>\<open>options._id\<close>), and the query object \<^verbatim>\<open>find\<close> (\<open>find'\<close> below) that
  \<open>findOne\<close> copies from it (every property but \<^verbatim>\<open>root\<close>).
\<close>

record options =
  opt_id :: "ident option"
  filename :: "string option"
  root :: "string option"

record query =
  find_id :: "ident option"
  find_filename :: "string option"

datatype find_result = FindError error | NoCursor | Cursor "file_doc list"

record database =
  db_collection :: "string \<Rightarrow> collection option"
  db_find :: "collection \<Rightarrow> query \<Rightarrow> find_result"

text \<open>The handle: \<open>col\<close> is the source's \<^verbatim>\<open>this._col\<close>.\<close>

record grid =
  db :: database
  mongo :: driver
  curCol :: string
  col :: "collection option"

text \<open>Truthiness of a string property and of an identifier property.\<close>

definition truthy_string :: "string option \<Rightarrow> bool" where
  "truthy_string s = (case s of None \<Rightarrow> False | Some v \<Rightarrow> v \<noteq> [])"

definition truthy_ident :: "ident option \<Rightarrow> bool" where
  "truthy_ident i =
     (case i of None \<Rightarrow> False | Some (IdString s) \<Rightarrow> s \<noteq> [] | Some (IdObject _) \<Rightarrow> True)"

text \<open>
  The constructor \<^verbatim>\<open>Grid(db, mongo)\<close>; \<open>Grid_mongo\<close> is the static property
  \<^verbatim>\<open>Grid.mongo\<close> that stands in for a missing \<open>mongo\<close> argument. (The messages of the
  two errors continue on a second line in the source.)
\<close>

definition Grid :: "driver option \<Rightarrow> database option \<Rightarrow> driver option \<Rightarrow> error + grid" where
  "Grid Grid_mongo db0 mongo0 =
     (case (case mongo0 of Some m \<Rightarrow> Some m | None \<Rightarrow> Grid_mongo) of
        None \<Rightarrow> Inl (Error ''missing mongo argument'')
      | Some m \<Rightarrow>
          (case db0 of
             None \<Rightarrow> Inl (Error ''missing db argument'')
           | Some d \<Rightarrow>
               Inr \<lparr>db = d, mongo = m,
                    curCol = (case GridStore m of
                                Some gs \<Rightarrow> DEFAULT_ROOT_COLLECTION gs
                              | None \<Rightarrow> ''fs''),
                    col = None\<rparr>))"

text \<open>
  \<^verbatim>\<open>Grid.prototype.collection(name)\<close>: assigns \<^verbatim>\<open>this.curCol\<close> and \<^verbatim>\<open>this._col\<close>. The
  last operand of \<^verbatim>\<open>name || this.curCol || this.mongo.GridStore.DEFAULT_ROOT_COLLECTION\<close>
  is read only when the first two are falsy, and throws a TypeError when the driver has
  no GridStore.
\<close>

definition collection :: "grid \<Rightarrow> string option \<Rightarrow> error + (collection option \<times> grid)" where
  "collection g name =
     (case (if truthy_string name then Inr (the name)
            else if curCol g \<noteq> [] then Inr (curCol g)
            else (case GridStore (mongo g) of
                    None \<Rightarrow> Inl TypeError
                  | Some gs \<Rightarrow> Inr (DEFAULT_ROOT_COLLECTION gs))) of
        Inl e \<Rightarrow> Inl e
      | Inr c \<Rightarrow>
          (let c' = db_collection (db g) (c @ ''.files'')
           in Inr (c', g\<lparr>curCol := c, col := c'\<rparr>)))"

text \<open>The getter \<^verbatim>\<open>files\<close>.\<close>

definition files :: "grid \<Rightarrow> error + (collection option \<times> grid)" where
  "files g = (case col g of Some c \<Rightarrow> Inr (Some c, g) | None \<Rightarrow> collection g None)"

text \<open>\<^verbatim>\<open>tryParseObjectId\<close>: \<open>None\<close> is the source's \<^verbatim>\<open>false\<close>.\<close>

definition tryParseObjectId :: "grid \<Rightarrow> ident \<Rightarrow> error + objectid option" where
  "tryParseObjectId g s =
     (case ObjectID (mongo g) s of Inr oid \<Rightarrow> Inr (Some oid) | Inl _ \<Rightarrow> Inr None)"

text \<open>
  The key that \<open>remove\<close> and \<open>exist\<close> compute into their local \<^verbatim>\<open>_id\<close>:
  \<^verbatim>\<open>if (options._id) { _id = this.tryParseObjectId(options._id) || options._id }\<close>
  \<^verbatim>\<open>if (!_id) { _id = options.filename }\<close>. The two functions repeat these lines; the
  model shares them.
\<close>

definition parsed_or_raw :: "grid \<Rightarrow> ident \<Rightarrow> error + ident" where
  "parsed_or_raw g i =
     (case tryParseObjectId g i of
        Inl e \<Rightarrow> Inl e
      | Inr (Some oid) \<Rightarrow> Inr (IdObject oid)
      | Inr None \<Rightarrow> Inr i)"

definition resolve_id :: "grid \<Rightarrow> options \<Rightarrow> error + ident option" where
  "resolve_id g opts =
     (case (if truthy_ident (opt_id opts)
            then map_sum id Some (parsed_or_raw g (the (opt_id opts)))
            else Inr None) of
        Inl e \<Rightarrow> Inl e
      | Inr i \<Rightarrow> Inr (if \<not> truthy_ident i then map_option IdString (filename opts) else i))"

text \<open>
  \<open>remove\<close> and \<open>exist\<close> end in a call of the driver, \<^verbatim>\<open>GridStore.unlink(db, _id,
  options, callback)\<close> and \<^verbatim>\<open>GridStore.exist(db, _id, options.root, callback)\<close>; the model
  returns that call. Without a GridStore in the driver the call throws a TypeError.
\<close>

datatype driver_call =
    Unlink "ident option" options
  | Exist "ident option" "string option"

definition remove :: "grid \<Rightarrow> options \<Rightarrow> error + driver_call" where
  "remove g opts =
     (case resolve_id g opts of
        Inl e \<Rightarrow> Inl e
      | Inr i \<Rightarrow>
          (case GridStore (mongo g) of
             None \<Rightarrow> Inl TypeError
           | Some _ \<Rightarrow> Inr (Unlink i opts)))"

definition exist :: "grid \<Rightarrow> options \<Rightarrow> error + driver_call" where
  "exist g opts =
     (case resolve_id g opts of
        Inl e \<Rightarrow> Inl e
      | Inr i \<Rightarrow>
          (case GridStore (mongo g) of
             None \<Rightarrow> Inl TypeError
           | Some _ \<Rightarrow> Inr (Exist i (root opts))))"

text \<open>
  \<open>findOne\<close>. The callback's arguments are the result: \<open>Callback err doc\<close>, each
  \<^verbatim>\<open>null\<close> when \<open>None\<close>. \<open>callback_is_function\<close> is the test
  \<^verbatim>\<open>'function' == typeof callback\<close>. \<open>findOne_collection\<close> is the source's
  \<^verbatim>\<open>var collection = options.root && options.root != this.curCol ? ... : this.files\<close>.
  \<open>nextObject\<close> is the cursor's: the first document, or \<^verbatim>\<open>null\<close> when there is none.
\<close>

datatype callback_args = Callback "error option" "file_doc option"

definition nextObject :: "file_doc list \<Rightarrow> callback_args" where
  "nextObject docs = (case docs of [] \<Rightarrow> Callback None None | d # _ \<Rightarrow> Callback None (Some d))"

definition findOne_query :: "grid \<Rightarrow> options \<Rightarrow> error + query" where
  "findOne_query g opts =
     (let find' = \<lparr>find_id = opt_id opts, find_filename = filename opts\<rparr>
      in if truthy_ident (find_id find')
         then (case parsed_or_raw g (the (find_id find')) of
                 Inl e \<Rightarrow> Inl e
               | Inr i \<Rightarrow> Inr (find'\<lparr>find_id := Some i\<rparr>))
         else Inr find')"

definition findOne_collection :: "grid \<Rightarrow> options \<Rightarrow> error + (collection option \<times> grid)" where
  "findOne_collection g opts =
     (if truthy_string (root opts) \<and> root opts \<noteq> Some (curCol g)
      then Inr (mongo_Collection (mongo g) (the (root opts) @ ''.files''), g)
      else files g)"

definition findOne :: "grid \<Rightarrow> options \<Rightarrow> bool \<Rightarrow> error + (callback_args \<times> grid)" where
  "findOne g opts callback_is_function =
     (if \<not> callback_is_function then Inl (Error ''findOne requires a callback function'')
      else
        (case findOne_query g opts of
           Inl e \<Rightarrow> Inl e
         | Inr find' \<Rightarrow>
             (case findOne_collection g opts of
                Inl e \<Rightarrow> Inl e
              | Inr (None, g') \<Rightarrow> Inr (Callback (Some (Error ''No collection specified'')) None, g')
              | Inr (Some c, g') \<Rightarrow>
                  (case db_find (db g') c find' of
                     FindError e \<Rightarrow> Inr (Callback (Some e) None, g')
                   | NoCursor \<Rightarrow> Inr (Callback (Some (Error ''Collection not found'')) None, g')
                   | Cursor docs \<Rightarrow> Inr (nextObject docs, g')))))"

subsection \<open>Sequences of operations on a handle\<close>

text \<open>
  Sequences of operations on one handle, for the question which of them change its
  default collection. An operation that throws leaves the handle as it was (each throw
  of the module comes before its first assignment). \<open>cached_default g\<close>: the root of
  \<open>g\<close> is not empty and its cached collection, if any, is the files collection of its
  root, as on every handle the constructor builds with a non-empty root.
\<close>

datatype operation =
    Op_files
  | Op_findOne options bool
  | Op_collection "string option"

fun apply_operation :: "operation \<Rightarrow> grid \<Rightarrow> grid" where
  "apply_operation Op_files g = (case files g of Inl e \<Rightarrow> g | Inr (c, g') \<Rightarrow> g')"
| "apply_operation (Op_findOne opts b) g = (case findOne g opts b of Inl e \<Rightarrow> g | Inr (r, g') \<Rightarrow> g')"
| "apply_operation (Op_collection name) g = (case collection g name of Inl e \<Rightarrow> g | Inr (c, g') \<Rightarrow> g')"

definition run_operations :: "operation list \<Rightarrow> grid \<Rightarrow> grid" where
  "run_operations ops g = fold apply_operation ops g"

definition renames :: "operation \<Rightarrow> bool" where
  "renames op = (case op of Op_collection name \<Rightarrow> truthy_string name | _ \<Rightarrow> False)"

definition cached_default :: "grid \<Rightarrow> bool" where
  "cached_default g =
     (curCol g \<noteq> [] \<and> (col g = None \<or> col g = db_collection (db g) (curCol g @ ''.files'')))"

subsection \<open>A database held in memory, and a driver, for concrete runs\<close>

text \<open>
  \<open>memory_db\<close> keeps the documents of each collection in a list; \<open>find\<close> yields, in the
  list's order, the documents whose \<^verbatim>\<open>_id\<close> and \<^verbatim>\<open>filename\<close> equal those the query
  names. \<open>hex_driver\<close> has a GridStore with the root \<^verbatim>\<open>fs\<close>, and an ObjectID constructor
  that takes an ObjectID, a string of 24 hexadecimal digits or a string of 12 characters,
  and throws on any other string.
\<close>

definition matches :: "query \<Rightarrow> file_doc \<Rightarrow> bool" where
  "matches q d =
     ((case find_id q of None \<Rightarrow> True | Some i \<Rightarrow> doc_id d = i)
      \<and> (case find_filename q of None \<Rightarrow> True | Some f \<Rightarrow> doc_filename d = f))"

definition memory_db :: "(string \<Rightarrow> file_doc list) \<Rightarrow> database" where
  "memory_db docs =
     \<lparr>db_collection = (\<lambda>name. Some (Collection name)),
      db_find = (\<lambda>c q. case c of Collection name \<Rightarrow> Cursor (filter (matches q) (docs name)))\<rparr>"

definition is_hex :: "char \<Rightarrow> bool" where
  "is_hex c = (c \<in> set ''0123456789abcdefABCDEF'')"

definition hex_ObjectID :: "ident \<Rightarrow> error + objectid" where
  "hex_ObjectID i =
     (case i of
        IdObject oid \<Rightarrow> Inr oid
      | IdString s \<Rightarrow>
          if length s = 12 \<or> (length s = 24 \<and> list_all is_hex s) then Inr (ObjectId s)
          else Inl (Error ''Argument passed in must be a single String of 12 bytes or a string of 24 hex characters''))"

definition hex_driver :: driver where
  "hex_driver =
     \<lparr>GridStore = Some \<lparr>DEFAULT_ROOT_COLLECTION = ''fs''\<rparr>,
      ObjectID = hex_ObjectID,
      mongo_Collection = (\<lambda>name. Some (Collection name))\<rparr>"

subsection \<open>Concrete inputs, and the cache rule as the specification words it\<close>

text \<open>
  \<open>spec_serve\<close> follows the specification's sentence: serve when no cache-control header
  is present, or it contains \<^verbatim>\<open>no-cache\<close> or \<^verbatim>\<open>private\<close> (as one of its pieces), or
  if-none-match is present and differs from the checksum. It is compared with the code
  below; the code does not use it.
\<close>

definition spec_serve :: "string \<Rightarrow> (string \<rightharpoonup> string) \<Rightarrow> bool" where
  "spec_serve c h =
     ((case h ''cache-control'' of
         None \<Rightarrow> True
       | Some v \<Rightarrow> ''no-cache'' \<in> set (split v '', '') \<or> ''private'' \<in> set (split v '', ''))
      \<or> (case h ''if-none-match'' of None \<Rightarrow> False | Some v \<Rightarrow> v \<noteq> c))"

definition file1 :: metadata where
  "file1 = \<lparr>md5 = Some ''abc123'', uploadDate = Some (Date 0), contentType = Some ''text/plain''\<rparr>"

definition request_of :: "(string \<times> string) list \<Rightarrow> request" where
  "request_of hs = \<lparr>headers = Some (map_of hs)\<rparr>"

definition response0 :: response where
  "response0 = \<lparr>written = []\<rparr>"

text \<open>
  \<open>spec_preconditions\<close> follows the words of the claim about the guards of
  \<open>setCacheControl\<close>: the three arguments are there, and the metadata record has its
  \<open>md5\<close>, \<open>uploadDate\<close> and \<open>contentType\<close> fields.
\<close>

definition spec_preconditions :: "metadata option \<Rightarrow> request option \<Rightarrow> response option \<Rightarrow> bool" where
  "spec_preconditions metadata rq rs =
     (case (metadata, rq, rs) of
        (Some m, Some _, Some _) \<Rightarrow> md5 m \<noteq> None \<and> uploadDate m \<noteq> None \<and> contentType m \<noteq> None
      | _ \<Rightarrow> False)"

text \<open>
  A files collection \<^verbatim>\<open>fs.files\<close> holding two documents with the same filename, the
  older one first, and a handle on it as the constructor builds it.
\<close>

definition report_old :: file_doc where
  "report_old =
     \<lparr>md5 = Some ''abc123'', uploadDate = Some (Date 1000), contentType = Some ''text/plain'',
      doc_id = IdObject (ObjectId ''00000000000000000000000a''), doc_filename = ''report.txt''\<rparr>"

definition report_new :: file_doc where
  "report_new =
     \<lparr>md5 = Some ''def456'', uploadDate = Some (Date 2000), contentType = Some ''text/plain'',
      doc_id = IdObject (ObjectId ''00000000000000000000000b''), doc_filename = ''report.txt''\<rparr>"

definition docs0 :: "string \<Rightarrow> file_doc list" where
  "docs0 name = (if name = ''fs.files'' then [report_old, report_new] else [])"

definition grid0 :: grid where
  "grid0 = \<lparr>db = memory_db docs0, mongo = hex_driver, curCol = ''fs'', col = None\<rparr>"

definition by_filename :: "string \<Rightarrow> options" where
  "by_filename f = \<lparr>opt_id = None, filename = Some f, root = None\<rparr>"

text \<open>
  \<open>spec_key\<close> follows the words of the claim about \<open>remove\<close> and \<open>exist\<close>: the parsed
  ObjectID when \<^verbatim>\<open>_id\<close> parses, otherwise the raw \<^verbatim>\<open>_id\<close> when it is present, otherwise
  the filename.
\<close>

definition spec_key :: "grid \<Rightarrow> options \<Rightarrow> ident option" where
  "spec_key g opts =
     (case opt_id opts of
        Some i \<Rightarrow> (case ObjectID (mongo g) i of Inr oid \<Rightarrow> Some (IdObject oid) | Inl _ \<Rightarrow> Some i)
      | None \<Rightarrow> map_option IdString (filename opts))"

section \<open>The write and read sessions\<close>

text \<open>
  Modelled from the spec: the write stream and the read stream. \<open>createWriteStream\<close>
  and \<open>createReadStream\<close> of lib/index.js only construct
  \<^verbatim>\<open>new GridWriteStream(this, options)\<close> and \<^verbatim>\<open>new GridReadStream(this, options)\<close>, and
  the modules \<^verbatim>\<open>./writestream\<close> and \<^verbatim>\<open>./readstream\<close> that define these two streams are
  not among the sources. Every definition of this section follows the specification:
  its sections 3 (data model), 4.1 (WriteSession), 4.2 (ReadSession) and 6 (the
  ChunkStore interface). The ChunkStore is held in memory and does not fail, so
  \<open>StoreError\<close> does not arise in it. The running digest is a state of any type \<open>'d\<close>
  with the functions that absorb bytes into it (\<open>upd\<close>) and finish it (\<open>fin\<close>); the
  time of completion (\<open>now\<close>) is an argument.
\<close>

text \<open>
  Modelled from the spec: a byte (a \<open>char\<close> has 8 bits), the error taxonomy of section
  7 and the FileMetadata record of section 3.
\<close>

type_synonym byte = char

datatype session_error =
  InvalidArgument | NotFound | InvalidRange | MissingChunk | WriteAfterClose | StoreError

record file_metadata =
  fm_id :: ident
  fm_filename :: string
  fm_length :: nat
  fm_chunkSize :: nat
  fm_checksum :: string
  fm_uploadDate :: int
  fm_contentType :: "string option"
  fm_root :: string

text \<open>Modelled from the spec: the ChunkStore capability interface (section 6).\<close>

record chunk_store =
  chunks :: "ident \<times> nat \<rightharpoonup> byte list"
  records :: "file_metadata list"

datatype selector = ById ident | ByFilename string

definition putChunk :: "chunk_store \<Rightarrow> ident \<Rightarrow> nat \<Rightarrow> byte list \<Rightarrow> chunk_store" where
  "putChunk st fid seq bytes = st\<lparr>chunks := (chunks st)((fid, seq) \<mapsto> bytes)\<rparr>"

definition getChunk :: "chunk_store \<Rightarrow> ident \<Rightarrow> nat \<Rightarrow> byte list option" where
  "getChunk st fid seq = chunks st (fid, seq)"

definition putMetadata :: "chunk_store \<Rightarrow> file_metadata \<Rightarrow> chunk_store" where
  "putMetadata st r = st\<lparr>records := records st @ [r]\<rparr>"

definition findMetadata :: "chunk_store \<Rightarrow> string \<Rightarrow> selector \<Rightarrow> file_metadata list" where
  "findMetadata st rt sel =
     filter (\<lambda>m. fm_root m = rt
                 \<and> (case sel of ById i \<Rightarrow> fm_id m = i | ByFilename f \<Rightarrow> fm_filename m = f))
       (records st)"

definition deleteChunks :: "chunk_store \<Rightarrow> ident \<Rightarrow> chunk_store" where
  "deleteChunks st fid = st\<lparr>chunks := (\<lambda>k. if fst k = fid then None else chunks st k)\<rparr>"

text \<open>
  Modelled from the spec: the option bag as the explicit configuration structure of
  section 9 (\<open>aliases\<close> and the free-form \<open>metadata\<close> are passed through and left
  out), and the defaults of section 6.
\<close>

record session_options =
  o_id :: "ident option"
  o_filename :: "string option"
  o_root :: "string option"
  o_chunkSize :: "int option"
  o_contentType :: "string option"
  o_rangeStart :: "int option"
  o_rangeEnd :: "int option"

definition default_chunkSize :: int where
  "default_chunkSize = 262144"

definition default_root :: string where
  "default_root = ''fs''"

subsection \<open>WriteSession\<close>

datatype write_status = Open | Flushing | Closed | Failed

record 'd write_session =
  buffer :: "byte list"
  bufferedLength :: nat
  nextSeq :: nat
  totalLength :: nat
  checksum :: 'd
  fileId :: ident
  status :: write_status
  chunkSize :: nat
  w_filename :: string
  w_contentType :: "string option"
  w_root :: string

text \<open>
  Modelled from the spec: \<open>open(selection)\<close> of the WriteSession. \<open>d0\<close> is the empty
  digest and \<open>fresh\<close> the identifier generated when the options give none.
\<close>

definition write_open :: "'d \<Rightarrow> ident \<Rightarrow> session_options \<Rightarrow> session_error + 'd write_session" where
  "write_open d0 fresh opts =
     (let cs = (case o_chunkSize opts of None \<Rightarrow> default_chunkSize | Some c \<Rightarrow> c)
      in if cs \<le> 0 then Inl InvalidArgument
         else Inr \<lparr>buffer = [], bufferedLength = 0, nextSeq = 0, totalLength = 0,
                   checksum = d0,
                   fileId = (case o_id opts of None \<Rightarrow> fresh | Some i \<Rightarrow> i),
                   status = Open, chunkSize = nat cs,
                   w_filename = (case o_filename opts of None \<Rightarrow> [] | Some f \<Rightarrow> f),
                   w_contentType = o_contentType opts,
                   w_root = (case o_root opts of None \<Rightarrow> default_root | Some r \<Rightarrow> r)\<rparr>)"

text \<open>
  Modelled from the spec: the greedy flush of \<open>write\<close>, "while bufferedLength \<ge>
  chunkSize: slice exactly chunkSize bytes as chunk nextSeq, persist, increment nextSeq,
  remove the slice from the buffer". The loop does not end when the chunk size is 0, so
  it is a partial function: \<open>None\<close> is the loop that runs forever.
\<close>

partial_function (option) flush_chunks ::
  "'d write_session \<times> chunk_store \<Rightarrow> ('d write_session \<times> chunk_store) option" where
  "flush_chunks p =
     (if chunkSize (fst p) \<le> bufferedLength (fst p)
      then flush_chunks
             ((fst p)\<lparr>buffer := drop (chunkSize (fst p)) (buffer (fst p)),
                      bufferedLength := bufferedLength (fst p) - chunkSize (fst p),
                      nextSeq := nextSeq (fst p) + 1\<rparr>,
              putChunk (snd p) (fileId (fst p)) (nextSeq (fst p))
                (take (chunkSize (fst p)) (buffer (fst p))))
      else Some p)"

declare flush_chunks.simps [code]

text \<open>Modelled from the spec: \<open>write(bytes)\<close>.\<close>

definition write_bytes ::
  "('d \<Rightarrow> byte list \<Rightarrow> 'd) \<Rightarrow> byte list \<Rightarrow> 'd write_session \<times> chunk_store
   \<Rightarrow> (session_error + 'd write_session \<times> chunk_store) option" where
  "write_bytes upd bytes p =
     (if status (fst p) \<noteq> Open then Some (Inl WriteAfterClose)
      else map_option Inr
             (flush_chunks
                ((fst p)\<lparr>buffer := buffer (fst p) @ bytes,
                         bufferedLength := bufferedLength (fst p) + length bytes,
                         checksum := upd (checksum (fst p)) bytes,
                         totalLength := totalLength (fst p) + length bytes\<rparr>,
                 snd p)))"

text \<open>
  Modelled from the spec: a producer pushing a sequence of buffers (section 2), the writes
  in order, stopping at an error.
\<close>

fun write_all ::
  "('d \<Rightarrow> byte list \<Rightarrow> 'd) \<Rightarrow> byte list list \<Rightarrow> 'd write_session \<times> chunk_store
   \<Rightarrow> (session_error + 'd write_session \<times> chunk_store) option" where
  "write_all upd [] p = Some (Inr p)"
| "write_all upd (bytes # rest) p =
     (case write_bytes upd bytes p of
        None \<Rightarrow> None
      | Some (Inl e) \<Rightarrow> Some (Inl e)
      | Some (Inr p') \<Rightarrow> write_all upd rest p')"

text \<open>
  Modelled from the spec: \<open>end()\<close> (named \<open>end_session\<close>) and \<open>abort()\<close>. The
  specification names no error for an \<open>abort\<close> outside the statuses Open and
  Flushing; the model answers WriteAfterClose.
\<close>

definition end_session ::
  "('d \<Rightarrow> string) \<Rightarrow> int \<Rightarrow> 'd write_session \<times> chunk_store
   \<Rightarrow> session_error + 'd write_session \<times> chunk_store" where
  "end_session fin now p =
     (if status (fst p) \<noteq> Open then Inl WriteAfterClose
      else
        (let s = (fst p)\<lparr>status := Flushing\<rparr>;
             st1 = (if buffer s \<noteq> [] then putChunk (snd p) (fileId s) (nextSeq s) (buffer s)
                    else snd p);
             st2 = putMetadata st1
                     \<lparr>fm_id = fileId s, fm_filename = w_filename s, fm_length = totalLength s,
                      fm_chunkSize = chunkSize s, fm_checksum = fin (checksum s),
                      fm_uploadDate = now, fm_contentType = w_contentType s,
                      fm_root = w_root s\<rparr>
         in Inr (s\<lparr>status := Closed\<rparr>, st2)))"

definition abort :: "'d write_session \<times> chunk_store \<Rightarrow> session_error + 'd write_session \<times> chunk_store" where
  "abort p =
     (if status (fst p) = Open \<or> status (fst p) = Flushing
      then Inr ((fst p)\<lparr>status := Failed\<rparr>, deleteChunks (snd p) (fileId (fst p)))
      else Inl WriteAfterClose)"

subsection \<open>ReadSession\<close>

datatype read_status = Resolving | Streaming | Done | ReadFailed

record read_session =
  r_metadata :: file_metadata
  rangeStart :: int
  rangeEnd :: int
  r_nextSeq :: int
  r_status :: read_status

text \<open>
  Modelled from the spec: \<open>startSeq = floor(rangeStart / chunkSize)\<close> and
  \<open>endSeq = ceil(rangeEnd / chunkSize) - 1\<close>.
\<close>

definition startSeq :: "read_session \<Rightarrow> int" where
  "startSeq s = rangeStart s div int (fm_chunkSize (r_metadata s))"

definition endSeq :: "read_session \<Rightarrow> int" where
  "endSeq s = - ((- rangeEnd s) div int (fm_chunkSize (r_metadata s))) - 1"

text \<open>Modelled from the spec: the tie-break of an ambiguous selection, the most recent by \<open>uploadDate\<close>.\<close>

fun most_recent :: "file_metadata list \<Rightarrow> file_metadata option" where
  "most_recent [] = None"
| "most_recent (m # ms) =
     (case most_recent ms of
        None \<Rightarrow> Some m
      | Some m' \<Rightarrow> if fm_uploadDate m' > fm_uploadDate m then Some m' else Some m)"

text \<open>Modelled from the spec: \<open>open(selection)\<close> of the ReadSession, with its range validation.\<close>

definition read_open :: "chunk_store \<Rightarrow> session_options \<Rightarrow> session_error + read_session" where
  "read_open st opts =
     (case (case o_id opts of
              Some i \<Rightarrow> Some (ById i)
            | None \<Rightarrow> map_option ByFilename (o_filename opts)) of
        None \<Rightarrow> Inl InvalidArgument
      | Some sel \<Rightarrow>
          (case most_recent
                  (findMetadata st (case o_root opts of None \<Rightarrow> default_root | Some r \<Rightarrow> r) sel) of
             None \<Rightarrow> Inl NotFound
           | Some m \<Rightarrow>
               (let a = (case o_rangeStart opts of None \<Rightarrow> 0 | Some x \<Rightarrow> x);
                    b = (case o_rangeEnd opts of None \<Rightarrow> int (fm_length m) | Some y \<Rightarrow> y);
                    s = \<lparr>r_metadata = m, rangeStart = a, rangeEnd = b, r_nextSeq = 0,
                         r_status = Resolving\<rparr>
                in if a < 0 \<or> b > int (fm_length m) \<or> a > b then Inl InvalidRange
                   else Inr (s\<lparr>r_nextSeq := startSeq s, r_status := Streaming\<rparr>))))"

text \<open>
  Modelled from the spec: \<open>nextChunk()\<close>. The result is the trimmed slice, or \<open>None\<close>
  at the end of the stream. The last chunk is cut at the range's final byte, then the
  first chunk loses its first \<open>rangeStart mod chunkSize\<close> bytes. The specification names
  no error for a call outside the status Streaming; the model answers InvalidArgument.
\<close>

definition nextChunk :: "chunk_store \<Rightarrow> read_session \<Rightarrow> session_error + (byte list option \<times> read_session)" where
  "nextChunk st s =
     (if r_status s \<noteq> Streaming then Inl InvalidArgument
      else if r_nextSeq s > endSeq s then Inr (None, s\<lparr>r_status := Done\<rparr>)
      else
        (case getChunk st (fm_id (r_metadata s)) (nat (r_nextSeq s)) of
           None \<Rightarrow> Inl MissingChunk
         | Some payload \<Rightarrow>
             (let cs = int (fm_chunkSize (r_metadata s));
                  cut = (if r_nextSeq s = endSeq s
                         then take (nat (rangeEnd s - r_nextSeq s * cs)) payload else payload);
                  trimmed = (if r_nextSeq s = startSeq s
                             then drop (nat (rangeStart s mod cs)) cut else cut)
              in Inr (Some trimmed, s\<lparr>r_nextSeq := r_nextSeq s + 1\<rparr>))))"

text \<open>
  Modelled from the spec: a consumer pulling until the end of the stream (section 2), the
  slices in order.
\<close>

function read_all :: "chunk_store \<Rightarrow> read_session \<Rightarrow> session_error + byte list list" where
  "read_all st s =
     (case nextChunk st s of
        Inl e \<Rightarrow> Inl e
      | Inr (None, s') \<Rightarrow> Inr []
      | Inr (Some bytes, s') \<Rightarrow>
          (case read_all st s' of Inl e \<Rightarrow> Inl e | Inr rest \<Rightarrow> Inr (bytes # rest)))"
  by pat_completeness auto
termination
proof (relation "measure (\<lambda>(st, s). nat (endSeq s + 1 - r_nextSeq s))")
  show "wf (measure (\<lambda>(st, s). nat (endSeq s + 1 - r_nextSeq s)))"
    by simp
next
  fix st s x2 x1 s' bytes
  assume "nextChunk st s = Inr x2" "(x1, s') = x2" "x1 = Some bytes"
  then have "nextChunk st s = Inr (Some bytes, s')"
    by simp
  then have "r_nextSeq s \<le> endSeq s \<and> s' = s\<lparr>r_nextSeq := r_nextSeq s + 1\<rparr>"
    by (auto simp: nextChunk_def Let_def split: if_splits option.splits)
  then show "((st, s'), (st, s)) \<in> measure (\<lambda>(st, s). nat (endSeq s + 1 - r_nextSeq s))"
    by (auto simp: endSeq_def)
qed

text \<open>
  Modelled from the spec: the round trip of section 8. Writing the pieces through a
  session opened with the identifier \<open>fid\<close> and the options \<open>opts\<close>, ending it, and
  reading the file of that identifier back with the default range (the full range
  \<open>[0, length)\<close>).
\<close>

definition write_then_read ::
  "('d \<Rightarrow> byte list \<Rightarrow> 'd) \<Rightarrow> ('d \<Rightarrow> string) \<Rightarrow> 'd \<Rightarrow> int \<Rightarrow> chunk_store \<Rightarrow> ident
   \<Rightarrow> session_options \<Rightarrow> byte list list \<Rightarrow> (session_error + byte list list) option" where
  "write_then_read upd fin d0 now st fid opts pieces =
     (case write_open d0 fid (opts\<lparr>o_id := Some fid\<rparr>) of
        Inl e \<Rightarrow> Some (Inl e)
      | Inr s0 \<Rightarrow>
          (case write_all upd pieces (s0, st) of
             None \<Rightarrow> None
           | Some (Inl e) \<Rightarrow> Some (Inl e)
           | Some (Inr p1) \<Rightarrow>
               (case end_session fin now p1 of
                  Inl e \<Rightarrow> Some (Inl e)
                | Inr p2 \<Rightarrow>
                    (case read_open (snd p2)
                            (opts\<lparr>o_id := Some fid, o_rangeStart := None, o_rangeEnd := None\<rparr>) of
                       Inl e \<Rightarrow> Some (Inl e)
                     | Inr r \<Rightarrow> Some (read_all (snd p2) r)))))"

subsection \<open>The invariant of a write in progress, and a concrete run\<close>

text \<open>
  \<open>write_inv C fid rt R W p\<close>: the open session of \<open>p\<close> has the chunk size \<open>C\<close>, the
  identifier \<open>fid\<close> and the root \<open>rt\<close>, it has taken the bytes \<open>W\<close>, its buffer
  holds what of \<open>W\<close> is not yet in a chunk, the chunks stored so far are the
  consecutive slices of \<open>W\<close>, and the store's metadata records are still \<open>R\<close>.
\<close>

definition write_inv ::
  "nat \<Rightarrow> ident \<Rightarrow> string \<Rightarrow> file_metadata list \<Rightarrow> byte list
   \<Rightarrow> 'd write_session \<times> chunk_store \<Rightarrow> bool" where
  "write_inv C fid rt R W p =
     (chunkSize (fst p) = C \<and> fileId (fst p) = fid \<and> w_root (fst p) = rt
      \<and> status (fst p) = Open \<and> records (snd p) = R
      \<and> totalLength (fst p) = length W
      \<and> bufferedLength (fst p) = length (buffer (fst p))
      \<and> buffer (fst p) = drop (nextSeq (fst p) * C) W
      \<and> nextSeq (fst p) * C \<le> length W
      \<and> (\<forall>i < nextSeq (fst p). chunks (snd p) (fid, i) = Some (take C (drop (i * C) W))))"

definition hello :: "byte list list" where
  "hello = [''hello'', '' wor'', ''ld'']"

definition store0 :: chunk_store where
  "store0 = \<lparr>chunks = Map.empty, records = []\<rparr>"

definition store1 :: chunk_store where
  "store1 =
     \<lparr>chunks = [(IdString ''f0'', 0) \<mapsto> ''abc''],
      records = [\<lparr>fm_id = IdString ''f0'', fm_filename = ''hello.txt'', fm_length = 3,
                  fm_chunkSize = 4, fm_checksum = ''abc'', fm_uploadDate = 7,
                  fm_contentType = None, fm_root = ''fs''\<rparr>]\<rparr>"

definition chunks_of_4 :: session_options where
  "chunks_of_4 =
     \<lparr>o_id = None, o_filename = Some ''hello.txt'', o_root = None, o_chunkSize = Some 4,
      o_contentType = None, o_rangeStart = None, o_rangeEnd = None\<rparr>"

text \<open>
  Modelled from the spec: the store that a complete write leaves (\<open>None\<close> when a step
  fails or the write loop does not end), and the bytes of a range read back from a
  store, for the concrete scenario of section 8.
\<close>

definition write_file ::
  "('d \<Rightarrow> byte list \<Rightarrow> 'd) \<Rightarrow> ('d \<Rightarrow> string) \<Rightarrow> 'd \<Rightarrow> int \<Rightarrow> chunk_store \<Rightarrow> ident
   \<Rightarrow> session_options \<Rightarrow> byte list list \<Rightarrow> chunk_store option" where
  "write_file upd fin d0 now st fid opts pieces =
     (case write_open d0 fid (opts\<lparr>o_id := Some fid\<rparr>) of
        Inl e \<Rightarrow> None
      | Inr s0 \<Rightarrow>
          (case write_all upd pieces (s0, st) of
             None \<Rightarrow> None
           | Some (Inl e) \<Rightarrow> None
           | Some (Inr p1) \<Rightarrow>
               (case end_session fin now p1 of Inl e \<Rightarrow> None | Inr p2 \<Rightarrow> Some (snd p2))))"

definition read_range :: "chunk_store \<Rightarrow> session_options \<Rightarrow> session_error + byte list" where
  "read_range st opts =
     (case read_open st opts of Inl e \<Rightarrow> Inl e | Inr r \<Rightarrow> map_sum id concat (read_all st r))"

section \<open>Properties\<close>

subsection \<open>Splitting a header value\<close>

text \<open>
  The pieces that \<open>split\<close> returns are the string cut at the separator: joined with the
  separator (\<^verbatim>\<open>Array.prototype.join\<close>) they give the string back.
\<close>

lemma split_acc_nonempty: "split_acc sep acc s \<noteq> []"
  by (induction sep acc s rule: split_acc.induct) auto

lemma join_Cons: "ys \<noteq> [] \<Longrightarrow> join (x # ys) sep = x @ sep @ join ys sep"
  by (cases ys) auto

lemma join_split_acc: "join (split_acc sep acc s) sep = rev acc @ s"
proof (induction sep acc s rule: split_acc.induct)
  case (1 sep acc)
  show ?case by simp
next
  case (2 sep acc c cs)
  show ?case
  proof (cases "sep \<noteq> [] \<and> take (length sep) (c # cs) = sep")
    case True
    then have "sep @ drop (length sep) (c # cs) = c # cs"
      by (metis append_take_drop_id)
    with True 2 show ?thesis
      by (simp add: join_Cons split_acc_nonempty del: take_Suc_Cons drop_Suc_Cons)
  next
    case False
    with 2 show ?thesis by auto
  qed
qed

lemma join_split: "join (split s sep) sep = s"
  by (simp add: split_def join_split_acc)

lemma split_examples:
  "split ''max-age=0, no-cache'' '', '' = [''max-age=0'', ''no-cache'']"
  "split ''no-cache,private'' '', '' = [''no-cache,private'']"
  "split ''private'' '', '' = [''private'']"
  by (simp_all add: split_def)

lemma indexOf_ge: "- 1 \<le> indexOf xs x"
  by (induction xs) (auto simp: Let_def)

lemma indexOf_absent: "indexOf xs x = - 1 \<longleftrightarrow> x \<notin> set xs"
proof (induction xs)
  case Nil
  show ?case by simp
next
  case (Cons y ys)
  have "- 1 \<le> indexOf ys x" by (rule indexOf_ge)
  with Cons show ?case by (auto simp: Let_def)
qed

lemma checkForCacheFromRequest_headers:
  "headers rq = Some h \<Longrightarrow>
   checkForCacheFromRequest rq c =
     Inr (h ''cache-control'' = None \<or> h ''cache-control'' = Some []
          \<or> (\<exists>v. h ''cache-control'' = Some v
                \<and> (''no-cache'' \<in> set (split v '', '') \<or> ''private'' \<in> set (split v '', '')))
          \<or> (\<exists>v. h ''if-none-match'' = Some v \<and> v \<noteq> [] \<and> v \<noteq> c))"
  by (auto simp: checkForCacheFromRequest_def indexOf_absent split: option.splits)

lemma setCacheControl_valid:
  assumes "md5 m = Some c" "c \<noteq> []" "uploadDate m = Some d" "contentType m = Some ct" "ct \<noteq> []"
    and "checkForCacheFromRequest rq c = Inr b"
  shows "setCacheControl (Some m) (Some rq) (Some rs) =
           (if b then (Inr 200, Some (setHeader (response_set rs (cache_headers c d)) ''Content-Type'' ct))
            else (Inr 304, Some (response_set rs (cache_headers c d))))"
  using assms by (simp add: setCacheControl_def)

lemmas run_simps = setCacheControl_def checkForCacheFromRequest_def file1_def request_of_def
  response0_def split_def response_set_def setHeader_def cache_headers_def

lemma disposition_of_headers:
  assumes "md5 m = Some c" "c \<noteq> []" "uploadDate m = Some d" "contentType m = Some ct" "ct \<noteq> []"
    and "headers rq = Some h"
  shows "fst (setCacheControl (Some m) (Some rq) (Some rs)) =
           (if h ''cache-control'' = None \<or> h ''cache-control'' = Some []
               \<or> (\<exists>v. h ''cache-control'' = Some v
                     \<and> (''no-cache'' \<in> set (split v '', '') \<or> ''private'' \<in> set (split v '', '')))
               \<or> (\<exists>v. h ''if-none-match'' = Some v \<and> v \<noteq> [] \<and> v \<noteq> c)
            then Inr 200 else Inr 304)"
  using assms(1-5) checkForCacheFromRequest_headers [OF assms(6), of c]
  by (simp add: setCacheControl_valid)

subsection \<open>C1: the disposition rule\<close>

text \<open>
  C1 as the specification states it fails on a header that is present and empty: JavaScript
  tests the header values for truthiness, and the empty string is falsy. With an empty
  cache-control header and no if-none-match the code serves (200) although no disjunct of
  the rule holds; with \<^verbatim>\<open>cache-control: max-age=0\<close> and an empty if-none-match the code
  answers 304 although the header is present and differs from the checksum.
\<close>

theorem setCacheControl_disposition_counterexample:
  "fst (setCacheControl (Some file1) (Some (request_of [(''cache-control'', '''')])) (Some response0))
     = Inr 200
   \<and> \<not> spec_serve ''abc123'' (map_of [(''cache-control'', '''')])
   \<and> fst (setCacheControl (Some file1)
            (Some (request_of [(''cache-control'', ''max-age=0''), (''if-none-match'', '''')]))
            (Some response0)) = Inr 304
   \<and> spec_serve ''abc123'' (map_of [(''cache-control'', ''max-age=0''), (''if-none-match'', '''')])"
  by (simp add: run_simps spec_serve_def)

text \<open>
  C1, amended: for a metadata record with a non-empty checksum \<open>c\<close>, an upload date and a
  non-empty content type, and a request with headers \<open>h\<close>, \<open>setCacheControl\<close> returns
  200 (serve) if and only if the cache-control header is missing or empty, or one of its
  pieces between \<^verbatim>\<open>", "\<close> is \<^verbatim>\<open>no-cache\<close> or \<^verbatim>\<open>private\<close>, or the if-none-match header
  is present, not empty and differs from \<open>c\<close>; in every other case it returns 304
  (not modified).
\<close>

theorem setCacheControl_disposition:
  assumes "md5 m = Some c" "c \<noteq> []" "uploadDate m = Some d" "contentType m = Some ct" "ct \<noteq> []"
    and "headers rq = Some h"
  shows "fst (setCacheControl (Some m) (Some rq) (Some rs)) =
           (if h ''cache-control'' = None \<or> h ''cache-control'' = Some []
               \<or> (\<exists>v. h ''cache-control'' = Some v
                     \<and> (''no-cache'' \<in> set (split v '', '') \<or> ''private'' \<in> set (split v '', '')))
               \<or> (\<exists>v. h ''if-none-match'' = Some v \<and> v \<noteq> [] \<and> v \<noteq> c)
            then Inr 200 else Inr 304)"
  using assms by (rule disposition_of_headers)

theorem setCacheControl_disposition_witness:
  "md5 file1 = Some ''abc123'' \<and> uploadDate file1 = Some (Date 0)
   \<and> contentType file1 = Some ''text/plain''
   \<and> headers (request_of [(''cache-control'', ''max-age=0''), (''if-none-match'', ''abc123'')])
       = Some (map_of [(''cache-control'', ''max-age=0''), (''if-none-match'', ''abc123'')])
   \<and> fst (setCacheControl (Some file1)
            (Some (request_of [(''cache-control'', ''max-age=0''), (''if-none-match'', ''abc123'')]))
            (Some response0)) = Inr 304"
  using setCacheControl_disposition [of file1 "''abc123''" "Date 0" "''text/plain''"
      "request_of [(''cache-control'', ''max-age=0''), (''if-none-match'', ''abc123'')]"
      "map_of [(''cache-control'', ''max-age=0''), (''if-none-match'', ''abc123'')]" response0]
  by (simp add: file1_def request_of_def split_def)

subsection \<open>C2: the scenarios with checksum abc123\<close>

text \<open>
  C2 as the specification states it fails in its first scenario: a request with
  \<^verbatim>\<open>if-none-match: abc123\<close> and no cache-control header is served with 200, not
  answered with 304, because a missing cache-control header alone makes the code serve.
\<close>

theorem checksum_abc123_scenarios_counterexample:
  "fst (setCacheControl (Some file1) (Some (request_of [(''if-none-match'', ''abc123'')]))
          (Some response0)) = Inr 200
   \<and> fst (setCacheControl (Some file1) (Some (request_of [(''if-none-match'', ''abc123'')]))
          (Some response0)) \<noteq> Inr 304"
  by (simp add: run_simps)

text \<open>
  C2, amended: for a metadata record whose checksum is \<^verbatim>\<open>abc123\<close> (with an upload date
  and a non-empty content type), a request carrying \<^verbatim>\<open>if-none-match: abc123\<close> and no
  cache-control header yields serve, status 200; the same request with the header
  \<^verbatim>\<open>cache-control: max-age=0\<close> yields not modified, status 304; and a request carrying
  \<^verbatim>\<open>cache-control: no-cache\<close> yields serve, status 200, whatever its other headers are.
\<close>

theorem checksum_abc123_scenarios:
  assumes "md5 m = Some ''abc123''" "uploadDate m = Some d" "contentType m = Some ct" "ct \<noteq> []"
  shows "fst (setCacheControl (Some m) (Some (request_of [(''if-none-match'', ''abc123'')])) (Some rs))
           = Inr 200
       \<and> fst (setCacheControl (Some m)
                (Some (request_of [(''cache-control'', ''max-age=0''), (''if-none-match'', ''abc123'')]))
                (Some rs)) = Inr 304
       \<and> (\<forall>h. h ''cache-control'' = Some ''no-cache'' \<longrightarrow>
              fst (setCacheControl (Some m) (Some \<lparr>headers = Some h\<rparr>) (Some rs)) = Inr 200)"
proof -
  have c: "''abc123'' \<noteq> ([] :: string)" by simp
  have "fst (setCacheControl (Some m) (Some (request_of [(''if-none-match'', ''abc123'')])) (Some rs))
           = Inr 200"
    using disposition_of_headers [OF assms(1) c assms(2,3,4),
        of "request_of [(''if-none-match'', ''abc123'')]" "map_of [(''if-none-match'', ''abc123'')]" rs]
    by (simp add: request_of_def)
  moreover have "fst (setCacheControl (Some m)
                (Some (request_of [(''cache-control'', ''max-age=0''), (''if-none-match'', ''abc123'')]))
                (Some rs)) = Inr 304"
    using disposition_of_headers [OF assms(1) c assms(2,3,4),
        of "request_of [(''cache-control'', ''max-age=0''), (''if-none-match'', ''abc123'')]"
           "map_of [(''cache-control'', ''max-age=0''), (''if-none-match'', ''abc123'')]" rs]
    by (simp add: request_of_def split_def)
  moreover have "fst (setCacheControl (Some m) (Some \<lparr>headers = Some h\<rparr>) (Some rs)) = Inr 200"
    if "h ''cache-control'' = Some ''no-cache''" for h
    using that disposition_of_headers [OF assms(1) c assms(2,3,4), of "\<lparr>headers = Some h\<rparr>" h rs]
    by (simp add: split_def)
  ultimately show ?thesis by blast
qed

theorem checksum_abc123_scenarios_witness:
  "md5 file1 = Some ''abc123'' \<and> uploadDate file1 = Some (Date 0)
   \<and> contentType file1 = Some ''text/plain''
   \<and> fst (setCacheControl (Some file1) (Some (request_of [(''if-none-match'', ''abc123'')]))
            (Some response0)) = Inr 200
   \<and> fst (setCacheControl (Some file1)
            (Some (request_of [(''cache-control'', ''max-age=0''), (''if-none-match'', ''abc123'')]))
            (Some response0)) = Inr 304
   \<and> fst (setCacheControl (Some file1)
            (Some \<lparr>headers = Some (map_of [(''cache-control'', ''no-cache''),
                                              (''if-none-match'', ''abc123'')])\<rparr>)
            (Some response0)) = Inr 200"
  using checksum_abc123_scenarios [of file1 "Date 0" "''text/plain''" response0]
  by (simp add: file1_def)

subsection \<open>The date that toUTCString prints\<close>

lemma is_digit_digit: "is_digit (digit n)"
proof -
  have "nat (n mod 10) < length ''0123456789''"
    by simp
  then show ?thesis
    unfolding is_digit_def digit_def by (rule nth_mem)
qed

lemma civil_month_day:
  assumes "civil_from_days days = (y, m, d)"
  shows "1 \<le> m \<and> m \<le> 12 \<and> 1 \<le> d \<and> d \<le> 31"
proof -
  define r400 where "r400 = (days + 719468) mod 146097"
  define n100 where "n100 = min 3 (r400 div 36524)"
  define r100 where "r100 = r400 - 36524 * n100"
  define r4 where "r4 = r100 mod 1461"
  define n1 where "n1 = min 3 (r4 div 365)"
  define doy where "doy = r4 - 365 * n1"
  define mp where "mp = (5 * doy + 2) div 153"
  have "0 \<le> r400 \<and> r400 \<le> 146096"
    by (simp add: r400_def)
  have "0 \<le> r4 \<and> r4 \<le> 1460"
    by (simp add: r4_def)
  then have doy: "0 \<le> doy \<and> doy \<le> 365"
    unfolding doy_def n1_def by arith
  then have mp: "0 \<le> mp \<and> mp \<le> 11"
    unfolding mp_def by arith
  have d: "1 \<le> doy - (153 * mp + 2) div 5 + 1 \<and> doy - (153 * mp + 2) div 5 + 1 \<le> 31"
    using doy unfolding mp_def by arith
  have "snd (civil_from_days days) =
          (if mp < 10 then mp + 3 else mp - 9, doy - (153 * mp + 2) div 5 + 1)"
    unfolding civil_from_days_def Let_def mp_def doy_def n1_def r4_def r100_def n100_def r400_def
      snd_conv
    by (rule refl)
  with assms have "m = (if mp < 10 then mp + 3 else mp - 9)" "d = doy - (153 * mp + 2) div 5 + 1"
    by simp_all
  with mp d show ?thesis by auto
qed

lemma civil_year_parts:
  assumes "civil_from_days days = (y, m, d)"
  shows "\<exists>n400 r400 k. days + 719468 = 146097 * n400 + r400 \<and> 0 \<le> r400 \<and> r400 \<le> 146096
           \<and> y = 400 * n400 + k \<and> 0 \<le> k \<and> k \<le> 400 \<and> (k = 400 \<longleftrightarrow> 146037 \<le> r400)"
proof -
  define z where "z = days + 719468"
  define n400 where "n400 = z div 146097"
  define r400 where "r400 = z mod 146097"
  define n100 where "n100 = min 3 (r400 div 36524)"
  define r100 where "r100 = r400 - 36524 * n100"
  define n4 where "n4 = r100 div 1461"
  define r4 where "r4 = r100 mod 1461"
  define n1 where "n1 = min 3 (r4 div 365)"
  define doy where "doy = r4 - 365 * n1"
  define mp where "mp = (5 * doy + 2) div 153"
  define c where "c = (if (if mp < 10 then mp + 3 else mp - 9) \<le> 2 then 1 else 0 :: int)"
  define k where "k = 100 * n100 + 4 * n4 + n1 + c"
  have "civil_from_days days =
          (if (if mp < 10 then mp + 3 else mp - 9) \<le> 2
           then 400 * n400 + 100 * n100 + 4 * n4 + n1 + 1
           else 400 * n400 + 100 * n100 + 4 * n4 + n1,
           if mp < 10 then mp + 3 else mp - 9,
           doy - (153 * mp + 2) div 5 + 1)"
    unfolding civil_from_days_def Let_def mp_def doy_def n1_def r4_def n4_def r100_def
        n100_def r400_def n400_def z_def
    by (rule refl)
  with assms(1) have "y = (if (if mp < 10 then mp + 3 else mp - 9) \<le> 2
             then 400 * n400 + 100 * n100 + 4 * n4 + n1 + 1
             else 400 * n400 + 100 * n100 + 4 * n4 + n1)"
    by auto
  then have y: "y = 400 * n400 + k"
    by (simp add: c_def k_def)
  have z: "days + 719468 = 146097 * n400 + r400"
    by (simp add: n400_def r400_def z_def)
  have r400: "0 \<le> r400 \<and> r400 \<le> 146096"
    by (simp add: r400_def)
  have n100: "0 \<le> n100 \<and> n100 \<le> 3 \<and> 0 \<le> r100 \<and> r100 \<le> 36524"
    using r400 unfolding n100_def r100_def by arith
  have r100: "r100 = 1461 * n4 + r4"
    by (simp add: n4_def r4_def)
  have r4: "0 \<le> r4 \<and> r4 \<le> 1460"
    by (simp add: r4_def)
  have n4: "0 \<le> n4 \<and> n4 \<le> 24"
    using n100 unfolding n4_def by arith
  have n1: "0 \<le> n1 \<and> n1 \<le> 3 \<and> 0 \<le> doy \<and> doy \<le> 365"
    using r4 unfolding n1_def doy_def by arith
  have mp: "0 \<le> mp \<and> mp \<le> 11"
    using n1 unfolding mp_def by arith
  have c1: "c = 1 \<longleftrightarrow> 10 \<le> mp"
    using mp unfolding c_def by (auto split: if_splits)
  have mp10: "10 \<le> mp \<longleftrightarrow> 306 \<le> doy"
    unfolding mp_def by arith
  have c: "0 \<le> c \<and> c \<le> 1 \<and> (c = 1 \<longleftrightarrow> 306 \<le> doy)"
    using c1 mp10 unfolding c_def by auto
  have k: "0 \<le> k \<and> k \<le> 400"
    using n100 n4 n1 c unfolding k_def by linarith
  have "k = 400 \<longleftrightarrow> 146037 \<le> r400"
  proof
    assume "k = 400"
    then have all: "n100 = 3 \<and> n4 = 24 \<and> n1 = 3 \<and> c = 1"
      using n100 n4 n1 c unfolding k_def by linarith
    then have "306 \<le> doy" using c by simp
    then have "1401 \<le> r4" using all by (simp add: doy_def)
    then have "36465 \<le> r100" using r100 all by simp
    then show "146037 \<le> r400" using all by (simp add: r100_def)
  next
    assume a: "146037 \<le> r400"
    have a1: "n100 = 3"
      using a r400 unfolding n100_def by arith
    then have a2: "36465 \<le> r100"
      using a by (simp add: r100_def)
    have a3: "n4 = 24"
      using a2 n100 unfolding n4_def by arith
    then have a4: "1401 \<le> r4"
      using a2 r100 by simp
    have a5: "n1 = 3"
      using a4 r4 unfolding n1_def by arith
    then have "306 \<le> doy"
      using a4 by (simp add: doy_def)
    then have "c = 1" using c by simp
    with a1 a3 a5 show "k = 400" by (simp add: k_def)
  qed
  with y z r400 k show ?thesis by blast
qed

lemma civil_year_range:
  assumes "civil_from_days days = (y, m, d)"
  shows "0 \<le> y \<and> y \<le> 9999 \<longleftrightarrow> - 719528 \<le> days \<and> days \<le> 2932896"
proof -
  from civil_year_parts [OF assms] obtain n400 r400 k where
    p: "days + 719468 = 146097 * n400 + r400" "0 \<le> r400 \<and> r400 \<le> 146096"
       "y = 400 * n400 + k" "0 \<le> k \<and> k \<le> 400" "k = 400 \<longleftrightarrow> 146037 \<le> r400"
    by blast
  have lo: "0 \<le> y \<longleftrightarrow> - 719528 \<le> days"
  proof -
    consider "n400 \<le> - 2" | "n400 = - 1" | "0 \<le> n400" by linarith
    then show ?thesis
    proof cases
      case 1
      with p show ?thesis by linarith
    next
      case 2
      have "0 \<le> y \<longleftrightarrow> k = 400" using 2 p(3,4) by linarith
      moreover have "- 719528 \<le> days \<longleftrightarrow> 146037 \<le> r400" using 2 p(1) by linarith
      ultimately show ?thesis using p(5) by simp
    next
      case 3
      with p show ?thesis by linarith
    qed
  qed
  have hi: "y \<le> 9999 \<longleftrightarrow> days \<le> 2932896"
  proof -
    consider "n400 \<le> 23" | "n400 = 24" | "25 \<le> n400" by linarith
    then show ?thesis
    proof cases
      case 1
      with p show ?thesis by linarith
    next
      case 2
      have "y \<le> 9999 \<longleftrightarrow> k \<noteq> 400" using 2 p(3,4) by linarith
      moreover have "days \<le> 2932896 \<longleftrightarrow> \<not> 146037 \<le> r400" using 2 p(1) by linarith
      ultimately show ?thesis using p(5) by simp
    next
      case 3
      with p show ?thesis by linarith
    qed
  qed
  from lo hi show ?thesis by blast
qed

lemma year_string_length: "length (year_string y) = 4 \<longleftrightarrow> 0 \<le> y \<and> y \<le> 9999"
  by (auto simp: year_string_def pad4_def Let_def)

lemma http_date_shape:
  assumes "dn \<in> set day_names" "mn \<in> set month_names"
    and "list_all is_digit [a1, a2, y1, y2, y3, y4, h1, h2, m1, m2, s1, s2]"
  shows "http_date (dn @ '', '' @ [a1, a2] @ '' '' @ mn @ '' '' @ [y1, y2, y3, y4] @ '' ''
                    @ [h1, h2] @ '':'' @ [m1, m2] @ '':'' @ [s1, s2] @ '' GMT'')"
proof -
  from assms(1) obtain d1 d2 d3 where dn: "dn = [d1, d2, d3]"
    by (auto simp: day_names_def)
  from assms(2) obtain n1 n2 n3 where mn: "mn = [n1, n2, n3]"
    by (auto simp: month_names_def)
  show ?thesis
    using assms unfolding dn mn by (simp add: http_date_def)
qed

lemma invalid_not_http_date: "\<not> http_date ''Invalid Date''"
  by (simp add: http_date_def)

lemma toUTCString_parts:
  assumes "\<bar>t\<bar> \<le> 8640000000000000" "civil_from_days (t div 86400000) = (y, m, d)"
  shows "\<exists>dn mn a1 a2 h1 h2 m1 m2 s1 s2.
           dn \<in> set day_names \<and> mn \<in> set month_names
           \<and> list_all is_digit [a1, a2, h1, h2, m1, m2, s1, s2]
           \<and> toUTCString (Date t) =
               dn @ '', '' @ [a1, a2] @ '' '' @ mn @ '' '' @ year_string y @ '' ''
               @ [h1, h2] @ '':'' @ [m1, m2] @ '':'' @ [s1, s2] @ '' GMT''"
proof -
  define days where "days = t div 86400000"
  define secs where "secs = (t mod 86400000) div 1000"
  have c: "civil_from_days days = (y, m, d)"
    using assms(2) by (simp add: days_def)
  from civil_month_day [OF c] have m: "1 \<le> m \<and> m \<le> 12" by simp
  have dn: "day_names ! nat ((days + 4) mod 7) \<in> set day_names"
    by (rule nth_mem) (simp add: day_names_def)
  have "length month_names = 12"
    by (simp add: month_names_def)
  moreover have "nat (m - 1) < 12"
    using m by arith
  ultimately have mn: "month_names ! nat (m - 1) \<in> set month_names"
    by (simp only: nth_mem)
  have "toUTCString (Date t) =
      day_names ! nat ((days + 4) mod 7) @ '', '' @ [digit (d div 10), digit d] @ '' ''
      @ month_names ! nat (m - 1) @ '' '' @ year_string y @ '' ''
      @ [digit (secs div 3600 div 10), digit (secs div 3600)] @ '':''
      @ [digit (secs div 60 mod 60 div 10), digit (secs div 60 mod 60)] @ '':''
      @ [digit (secs mod 60 div 10), digit (secs mod 60)] @ '' GMT''"
    using assms(1) c by (simp add: toUTCString_def Let_def days_def secs_def pad2_def)
  moreover have "list_all is_digit [digit (d div 10), digit d,
      digit (secs div 3600 div 10), digit (secs div 3600),
      digit (secs div 60 mod 60 div 10), digit (secs div 60 mod 60),
      digit (secs mod 60 div 10), digit (secs mod 60)]"
    by (simp add: is_digit_digit)
  ultimately show ?thesis
    using dn mn by blast
qed

lemma toUTCString_http_date_iff:
  "http_date (toUTCString (Date t)) \<longleftrightarrow> - 62167219200000 \<le> t \<and> t < 253402300800000"
proof (cases "\<bar>t\<bar> \<le> 8640000000000000")
  case False
  then have "toUTCString (Date t) = ''Invalid Date''"
    by (simp add: toUTCString_def)
  with False invalid_not_http_date show ?thesis
    by auto
next
  case True
  obtain y m d where c: "civil_from_days (t div 86400000) = (y, m, d)"
    by (cases "civil_from_days (t div 86400000)") auto
  from toUTCString_parts [OF True c] obtain dn mn a1 a2 h1 h2 m1 m2 s1 s2 where
    p: "dn \<in> set day_names" "mn \<in> set month_names"
       "list_all is_digit [a1, a2, h1, h2, m1, m2, s1, s2]"
       "toUTCString (Date t) =
          dn @ '', '' @ [a1, a2] @ '' '' @ mn @ '' '' @ year_string y @ '' ''
          @ [h1, h2] @ '':'' @ [m1, m2] @ '':'' @ [s1, s2] @ '' GMT''"
    by blast
  have days: "- 719528 \<le> t div 86400000 \<and> t div 86400000 \<le> 2932896
      \<longleftrightarrow> - 62167219200000 \<le> t \<and> t < 253402300800000"
    by arith
  have "length dn = 3" using p(1) by (auto simp: day_names_def)
  moreover have "length mn = 3" using p(2) by (auto simp: month_names_def)
  ultimately have len: "length (toUTCString (Date t)) = 25 + length (year_string y)"
    by (simp add: p(4))
  show ?thesis
  proof (cases "0 \<le> y \<and> y \<le> 9999")
    case False
    then have "length (year_string y) \<noteq> 4"
      by (simp add: year_string_length)
    then have "\<not> http_date (toUTCString (Date t))"
      using len by (simp add: http_date_def)
    with False civil_year_range [OF c] days show ?thesis
      by blast
  next
    case y: True
    then have ys: "year_string y = [digit (y div 1000), digit (y div 100), digit (y div 10), digit y]"
      by (simp add: year_string_def pad4_def)
    have "http_date (toUTCString (Date t))"
      unfolding p(4) ys
      using http_date_shape [OF p(1,2), of a1 a2 "digit (y div 1000)" "digit (y div 100)"
          "digit (y div 10)" "digit y" h1 h2 m1 m2 s1 s2] p(3)
      by (simp add: is_digit_digit)
    with y civil_year_range [OF c] days show ?thesis
      by blast
  qed
qed

lemma epoch: "toUTCString (Date 0) = ''Thu, 01 Jan 1970 00:00:00 GMT''"
  by code_simp

lemma year_10000: "toUTCString (Date 253402300800000) = ''Sat, 01 Jan 10000 00:00:00 GMT''"
  by code_simp

lemma before_1970: "toUTCString (Date (- 1)) = ''Wed, 31 Dec 1969 23:59:59 GMT''"
  by code_simp

subsection \<open>C3: the headers written\<close>

text \<open>
  C3 as stated fails for the Last-Modified header. A Date object is truthy whatever it
  holds, so an invalid upload date passes the guard, and the header written is
  \<^verbatim>\<open>Invalid Date\<close>; an upload date in the year 10000 passes it too, and the header
  written has a year of five digits. Neither is a date in the format of HTTP.
\<close>

theorem setCacheControl_headers_counterexample:
  "setCacheControl (Some (file1\<lparr>uploadDate := Some InvalidDate\<rparr>)) (Some (request_of []))
     (Some response0)
     = (Inr 200, Some \<lparr>written =
          [(''Pragma'', ''public''), (''Accept-Ranges'', ''bytes''),
           (''Cache-Control'', ''public, max-age=0''), (''ETag'', ''abc123''),
           (''Last-Modified'', ''Invalid Date''), (''Content-Type'', ''text/plain'')]\<rparr>)
   \<and> \<not> http_date ''Invalid Date''
   \<and> setCacheControl (Some (file1\<lparr>uploadDate := Some (Date 253402300800000)\<rparr>))
       (Some (request_of [])) (Some response0)
     = (Inr 200, Some \<lparr>written =
          [(''Pragma'', ''public''), (''Accept-Ranges'', ''bytes''),
           (''Cache-Control'', ''public, max-age=0''), (''ETag'', ''abc123''),
           (''Last-Modified'', ''Sat, 01 Jan 10000 00:00:00 GMT''),
           (''Content-Type'', ''text/plain'')]\<rparr>)
   \<and> \<not> http_date ''Sat, 01 Jan 10000 00:00:00 GMT''"
proof -
  have i: "toUTCString InvalidDate = ''Invalid Date''"
    by (simp add: toUTCString_def)
  show ?thesis
    by (simp add: run_simps i year_10000) (simp add: http_date_def)
qed

text \<open>
  C3, amended: for every input that passes the guards (a metadata record with a non-empty
  checksum \<open>c\<close>, an upload date \<open>d\<close> and a non-empty content type \<open>ct\<close>; a request
  with headers; a response), \<open>setCacheControl\<close> returns 200 or 304 and writes to the
  response, after what was written before, exactly Pragma: public, Accept-Ranges: bytes,
  Cache-Control: public, max-age=0, ETag = \<open>c\<close> and Last-Modified = the upload date as
  \<open>toUTCString\<close> prints it, under both statuses; and then Content-Type = \<open>ct\<close> when
  the status is 200, and nothing more when it is 304. The Last-Modified value has the
  date format of HTTP exactly when the upload date is a valid date of the years 0 to
  9999 (a time value from -62167219200000 up to, not including, 253402300800000).
\<close>

theorem setCacheControl_headers:
  assumes "md5 m = Some c" "c \<noteq> []" "uploadDate m = Some d" "contentType m = Some ct" "ct \<noteq> []"
    and "headers rq = Some h"
  shows "(\<exists>st rs'. setCacheControl (Some m) (Some rq) (Some rs) = (Inr st, Some rs')
           \<and> (st = 200 \<or> st = 304)
           \<and> written rs' =
               written rs
               @ [(''Pragma'', ''public''), (''Accept-Ranges'', ''bytes''),
                  (''Cache-Control'', ''public, max-age=0''), (''ETag'', c),
                  (''Last-Modified'', toUTCString d)]
               @ (if st = 200 then [(''Content-Type'', ct)] else []))
       \<and> (http_date (toUTCString d)
            \<longleftrightarrow> (\<exists>t. d = Date t \<and> - 62167219200000 \<le> t \<and> t < 253402300800000))"
proof -
  have "\<exists>st rs'. setCacheControl (Some m) (Some rq) (Some rs) = (Inr st, Some rs')
           \<and> (st = 200 \<or> st = 304)
           \<and> written rs' =
               written rs
               @ [(''Pragma'', ''public''), (''Accept-Ranges'', ''bytes''),
                  (''Cache-Control'', ''public, max-age=0''), (''ETag'', c),
                  (''Last-Modified'', toUTCString d)]
               @ (if st = 200 then [(''Content-Type'', ct)] else [])"
    using assms(1-5) checkForCacheFromRequest_headers [OF assms(6), of c]
    by (simp add: setCacheControl_valid response_set_def setHeader_def cache_headers_def)
  moreover have "http_date (toUTCString d)
            \<longleftrightarrow> (\<exists>t. d = Date t \<and> - 62167219200000 \<le> t \<and> t < 253402300800000)"
  proof (cases d)
    case (Date t)
    then show ?thesis by (simp add: toUTCString_http_date_iff)
  next
    case InvalidDate
    then show ?thesis
      using invalid_not_http_date by (simp add: toUTCString_def)
  qed
  ultimately show ?thesis by blast
qed

theorem setCacheControl_headers_witness:
  "md5 (file1\<lparr>uploadDate := Some (Date (- 1))\<rparr>) = Some ''abc123''
   \<and> uploadDate (file1\<lparr>uploadDate := Some (Date (- 1))\<rparr>) = Some (Date (- 1))
   \<and> contentType (file1\<lparr>uploadDate := Some (Date (- 1))\<rparr>) = Some ''text/plain''
   \<and> setCacheControl (Some (file1\<lparr>uploadDate := Some (Date (- 1))\<rparr>))
        (Some (request_of [(''cache-control'', ''max-age=0'')])) (Some response0)
      = (Inr 304, Some \<lparr>written =
           [(''Pragma'', ''public''), (''Accept-Ranges'', ''bytes''),
            (''Cache-Control'', ''public, max-age=0''), (''ETag'', ''abc123''),
            (''Last-Modified'', ''Wed, 31 Dec 1969 23:59:59 GMT'')]\<rparr>)
   \<and> http_date ''Wed, 31 Dec 1969 23:59:59 GMT''"
  using setCacheControl_headers [of "file1\<lparr>uploadDate := Some (Date (- 1))\<rparr>" "''abc123''"
      "Date (- 1)" "''text/plain''"
      "request_of [(''cache-control'', ''max-age=0'')]" "map_of [(''cache-control'', ''max-age=0'')]" response0]
  by (simp add: run_simps before_1970)

subsection \<open>C9: when setCacheControl throws\<close>

text \<open>
  C9 as stated fails in its last part ("with these preconditions satisfied, it never
  raises"). A metadata record whose \<open>md5\<close> is the empty string has the field, and the
  guard \<^verbatim>\<open>!metadata.md5\<close> throws on it, writing nothing. And a request object without a
  \<open>headers\<close> property passes both guards; reading \<^verbatim>\<open>request.headers['cache-control']\<close>
  then throws a TypeError after the five headers were written.
\<close>

theorem setCacheControl_raises_counterexample:
  "spec_preconditions (Some (file1\<lparr>md5 := Some ''''\<rparr>)) (Some (request_of [])) (Some response0)
   \<and> setCacheControl (Some (file1\<lparr>md5 := Some ''''\<rparr>)) (Some (request_of [])) (Some response0)
      = (Inl (Error ''metadata should have md5, uploadDate and contentType members''), Some response0)
   \<and> spec_preconditions (Some file1) (Some \<lparr>headers = None\<rparr>) (Some response0)
   \<and> setCacheControl (Some file1) (Some \<lparr>headers = None\<rparr>) (Some response0)
      = (Inl TypeError, Some \<lparr>written =
           [(''Pragma'', ''public''), (''Accept-Ranges'', ''bytes''),
            (''Cache-Control'', ''public, max-age=0''), (''ETag'', ''abc123''),
            (''Last-Modified'', ''Thu, 01 Jan 1970 00:00:00 GMT'')]\<rparr>)"
  by (simp add: run_simps spec_preconditions_def epoch)

text \<open>
  C9, amended: \<open>setCacheControl\<close> throws and leaves the response as it was (it writes no
  header) whenever one of its three arguments is missing, and whenever the metadata
  record's \<open>md5\<close> or \<open>contentType\<close> is missing or empty or its \<open>uploadDate\<close> is
  missing; when the three arguments are there, \<open>md5\<close> and \<open>contentType\<close> are non-empty,
  \<open>uploadDate\<close> is there and the request has a \<open>headers\<close> object, it does not throw.
\<close>

theorem setCacheControl_raises:
  "((metadata = None \<or> rq = None \<or> rs = None) \<longrightarrow>
      setCacheControl metadata rq rs
        = (Inl (Error ''Grid.setCacheControl(metadata, request, response)''), rs))
   \<and> (\<forall>m r s. metadata = Some m \<and> rq = Some r \<and> rs = Some s
         \<and> (\<not> truthy_string (md5 m) \<or> uploadDate m = None \<or> \<not> truthy_string (contentType m)) \<longrightarrow>
      setCacheControl metadata rq rs
        = (Inl (Error ''metadata should have md5, uploadDate and contentType members''), rs))
   \<and> (\<forall>m r s. metadata = Some m \<and> rq = Some r \<and> rs = Some s
         \<and> truthy_string (md5 m) \<and> uploadDate m \<noteq> None \<and> truthy_string (contentType m)
         \<and> headers r \<noteq> None \<longrightarrow>
      (\<exists>st. fst (setCacheControl metadata rq rs) = Inr st))"
proof (intro conjI allI impI)
  assume "metadata = None \<or> rq = None \<or> rs = None"
  then show "setCacheControl metadata rq rs
        = (Inl (Error ''Grid.setCacheControl(metadata, request, response)''), rs)"
    by (auto simp: setCacheControl_def split: option.splits)
next
  fix m r s
  assume "metadata = Some m \<and> rq = Some r \<and> rs = Some s
         \<and> (\<not> truthy_string (md5 m) \<or> uploadDate m = None \<or> \<not> truthy_string (contentType m))"
  then show "setCacheControl metadata rq rs
        = (Inl (Error ''metadata should have md5, uploadDate and contentType members''), rs)"
    by (auto simp: setCacheControl_def truthy_string_def split: option.splits)
next
  fix m r s
  assume a: "metadata = Some m \<and> rq = Some r \<and> rs = Some s
         \<and> truthy_string (md5 m) \<and> uploadDate m \<noteq> None \<and> truthy_string (contentType m)
         \<and> headers r \<noteq> None"
  then obtain c d ct h where "md5 m = Some c" "c \<noteq> []" "uploadDate m = Some d"
      "contentType m = Some ct" "ct \<noteq> []" "headers r = Some h"
    by (auto simp: truthy_string_def split: option.splits)
  from disposition_of_headers [OF this, of s] a
  show "\<exists>st. fst (setCacheControl metadata rq rs) = Inr st"
    by (auto split: if_splits)
qed

theorem setCacheControl_raises_witness:
  "setCacheControl None (Some (request_of [])) (Some response0)
     = (Inl (Error ''Grid.setCacheControl(metadata, request, response)''), Some response0)
   \<and> setCacheControl (Some (file1\<lparr>contentType := None\<rparr>)) (Some (request_of [])) (Some response0)
     = (Inl (Error ''metadata should have md5, uploadDate and contentType members''), Some response0)
   \<and> (\<exists>st. fst (setCacheControl (Some file1) (Some (request_of [])) (Some response0)) = Inr st)"
  using setCacheControl_raises [of None "Some (request_of [])" "Some response0"]
    setCacheControl_raises [of "Some (file1\<lparr>contentType := None\<rparr>)" "Some (request_of [])" "Some response0"]
    setCacheControl_raises [of "Some file1" "Some (request_of [])" "Some response0"]
  by (simp add: file1_def request_of_def truthy_string_def)

lemma Grid_grid0: "Grid None (Some (memory_db docs0)) (Some hex_driver) = Inr grid0"
  by (simp add: Grid_def grid0_def hex_driver_def)

lemma files_fresh:
  assumes "curCol g \<noteq> []" "col g = None \<or> col g = db_collection (db g) (curCol g @ ''.files'')"
  shows "files g = Inr (db_collection (db g) (curCol g @ ''.files''),
                        g\<lparr>col := db_collection (db g) (curCol g @ ''.files'')\<rparr>)"
  using assms by (auto simp: files_def collection_def truthy_string_def Let_def split: option.splits)

lemma collection_named:
  "n \<noteq> [] \<Longrightarrow> collection g (Some n) =
     Inr (db_collection (db g) (n @ ''.files''),
          g\<lparr>curCol := n, col := db_collection (db g) (n @ ''.files'')\<rparr>)"
  by (simp add: collection_def truthy_string_def Let_def)

lemma findOne_collection_no_root:
  assumes "\<not> truthy_string (root opts)"
    and "curCol g \<noteq> []" "col g = None \<or> col g = db_collection (db g) (curCol g @ ''.files'')"
  shows "findOne_collection g opts =
           Inr (db_collection (db g) (curCol g @ ''.files''),
                g\<lparr>col := db_collection (db g) (curCol g @ ''.files'')\<rparr>)"
  using assms(1) files_fresh [OF assms(2,3)] by (simp add: findOne_collection_def)

lemma parsed_or_raw_total:
  "parsed_or_raw g i =
     Inr (case ObjectID (mongo g) i of Inr oid \<Rightarrow> IdObject oid | Inl _ \<Rightarrow> i)"
  by (simp add: parsed_or_raw_def tryParseObjectId_def split: sum.splits)

lemma findOne_query_total:
  "findOne_query g opts =
     Inr \<lparr>find_id = (if truthy_ident (opt_id opts)
                       then Some (case ObjectID (mongo g) (the (opt_id opts)) of
                                    Inr oid \<Rightarrow> IdObject oid | Inl _ \<Rightarrow> the (opt_id opts))
                       else opt_id opts),
          find_filename = filename opts\<rparr>"
  by (simp add: findOne_query_def parsed_or_raw_total Let_def)

subsection \<open>C5: a filename that several documents carry\<close>

text \<open>
  C5 as stated fails: \<open>findOne\<close> passes the query to the collection's \<open>find\<close> with
  no sort and takes the cursor's first document. With two documents of the same filename
  stored older first, it returns the older one, not the one with the most recent
  \<open>uploadDate\<close>.
\<close>

theorem findOne_ambiguous_counterexample:
  "map_sum id fst (findOne grid0 (by_filename ''report.txt'') True)
     = Inr (Callback None (Some report_old))
   \<and> docs0 ''fs.files'' = [report_old, report_new]
   \<and> doc_filename report_new = ''report.txt''
   \<and> uploadDate report_old = Some (Date 1000) \<and> uploadDate report_new = Some (Date 2000)"
  by (simp add: findOne_def findOne_query_total findOne_collection_def files_def collection_def
      truthy_string_def truthy_ident_def by_filename_def grid0_def memory_db_def matches_def
      docs0_def nextObject_def report_old_def report_new_def Let_def)

text \<open>
  C5, amended: for a selection by filename, \<open>findOne\<close> on a handle over a database
  held in memory calls back without an error and with the first document of that
  filename in the order the collection's cursor yields its documents (\<^verbatim>\<open>null\<close> when
  there is none). The result is a function of the handle and the options, so it is
  deterministic; no ordering by \<open>uploadDate\<close> takes part.
\<close>

theorem findOne_first_match:
  assumes "db g = memory_db docs" "curCol g \<noteq> []"
    and "col g = None \<or> col g = Some (Collection (curCol g @ ''.files''))"
  shows "map_sum id fst (findOne g (by_filename f) True)
           = Inr (Callback None (List.find (\<lambda>d. doc_filename d = f) (docs (curCol g @ ''.files''))))"
proof -
  have c: "col g = None \<or> col g = db_collection (db g) (curCol g @ ''.files'')"
    using assms(1,3) by (simp add: memory_db_def)
  have r: "\<not> truthy_string (root (by_filename f))"
    by (simp add: by_filename_def truthy_string_def)
  have n: "nextObject (filter P xs) = Callback None (List.find P xs)" for P and xs :: "file_doc list"
    by (induction xs) (auto simp: nextObject_def)
  have q: "findOne_query g (by_filename f) = Inr \<lparr>find_id = None, find_filename = Some f\<rparr>"
    by (simp add: findOne_query_total by_filename_def truthy_ident_def)
  have m: "matches \<lparr>find_id = None, find_filename = Some f\<rparr> = (\<lambda>d. doc_filename d = f)"
    by (simp add: fun_eq_iff matches_def)
  show ?thesis
    using assms(1)
    by (simp add: findOne_def q findOne_collection_no_root [OF r assms(2) c] memory_db_def m n)
qed

theorem findOne_first_match_witness:
  "db grid0 = memory_db docs0 \<and> curCol grid0 \<noteq> [] \<and> col grid0 = None
   \<and> map_sum id fst (findOne grid0 (by_filename ''report.txt'') True)
       = Inr (Callback None (Some report_old))"
  using findOne_first_match [of grid0 docs0 "''report.txt''"]
  by (simp add: grid0_def docs0_def report_old_def report_new_def)

subsection \<open>findOne on an empty cursor\<close>

text \<open>
  \<open>findOne\<close> is a query helper of the handle; the streams are opened elsewhere. When
  the cursor holds no document it calls back with \<^verbatim>\<open>(null, null)\<close>, passing on what
  \<^verbatim>\<open>cursor.nextObject\<close> gives.
\<close>

lemma findOne_empty_cursor:
  assumes "findOne_query g opts = Inr q" "findOne_collection g opts = Inr (Some c, g')"
    and "db_find (db g') c q = Cursor []"
  shows "findOne g opts True = Inr (Callback None None, g')"
  using assms by (simp add: findOne_def nextObject_def)

subsection \<open>C7: the default root\<close>

text \<open>
  C7: the constructor takes no root. Where the driver has no GridStore, the new handle's
  root is the literal \<^verbatim>\<open>fs\<close>; where it has one, the root is the driver's constant
  \<open>DEFAULT_ROOT_COLLECTION\<close>. The driver is not part of this module; its constant is a
  parameter here, and the mongodb driver sets it to \<^verbatim>\<open>fs\<close>. With that value, the new
  handle's root is \<^verbatim>\<open>fs\<close>, and \<open>files\<close> and a \<open>findOne\<close> whose options name no
  root (or an empty one) ask the database for the collection \<^verbatim>\<open>fs.files\<close>.
\<close>

theorem default_root_fs:
  assumes "Grid Grid_mongo (Some d) mongo0 = Inr g"
    and "\<forall>gs. GridStore (mongo g) = Some gs \<longrightarrow> DEFAULT_ROOT_COLLECTION gs = ''fs''"
    and "\<not> truthy_string (root opts)"
  shows "curCol g = ''fs''
       \<and> files g = Inr (db_collection d ''fs.files'', g\<lparr>col := db_collection d ''fs.files''\<rparr>)
       \<and> findOne_collection g opts
           = Inr (db_collection d ''fs.files'', g\<lparr>col := db_collection d ''fs.files''\<rparr>)"
proof -
  from assms(1) obtain m where g: "g = \<lparr>db = d, mongo = m,
      curCol = (case GridStore m of Some gs \<Rightarrow> DEFAULT_ROOT_COLLECTION gs | None \<Rightarrow> ''fs''),
      col = None\<rparr>"
    by (auto simp: Grid_def split: option.splits)
  with assms(2) have c: "curCol g = ''fs''"
    by (cases "GridStore m") auto
  have n: "curCol g \<noteq> []" using c by simp
  have k: "col g = None \<or> col g = db_collection (db g) (curCol g @ ''.files'')"
    using g by simp
  have dbg: "db g = d" using g by simp
  show ?thesis
    using c files_fresh [OF n k] findOne_collection_no_root [OF assms(3) n k]
    by (simp add: dbg)
qed

theorem default_root_fs_witness:
  "Grid None (Some (memory_db docs0)) (Some hex_driver) = Inr grid0
   \<and> GridStore (mongo grid0) = Some \<lparr>DEFAULT_ROOT_COLLECTION = ''fs''\<rparr>
   \<and> \<not> truthy_string (root (by_filename ''report.txt''))
   \<and> curCol grid0 = ''fs''
   \<and> findOne_collection grid0 (by_filename ''report.txt'')
       = Inr (Some (Collection ''fs.files''), grid0\<lparr>col := Some (Collection ''fs.files'')\<rparr>)"
proof -
  have g: "Grid None (Some (memory_db docs0)) (Some hex_driver) = Inr grid0"
    by (rule Grid_grid0)
  have s: "GridStore (mongo grid0) = Some \<lparr>DEFAULT_ROOT_COLLECTION = ''fs''\<rparr>"
    by (simp add: grid0_def hex_driver_def)
  have d: "\<forall>gs. GridStore (mongo grid0) = Some gs \<longrightarrow> DEFAULT_ROOT_COLLECTION gs = ''fs''"
    using s by simp
  have r: "\<not> truthy_string (root (by_filename ''report.txt''))"
    by (simp add: by_filename_def truthy_string_def)
  have m: "db_collection (memory_db docs0) ''fs.files'' = Some (Collection ''fs.files'')"
    by (simp add: memory_db_def)
  from default_root_fs [OF g d r] show ?thesis
    using g s r by (simp add: m)
qed

subsection \<open>C8: the default collection of a handle\<close>

lemma findOne_state:
  assumes "findOne g opts b = Inr (r, g')"
  shows "\<exists>c. findOne_collection g opts = Inr (c, g')"
  using assms
  by (auto simp: findOne_def split: if_splits sum.splits option.splits prod.splits
      find_result.splits)

lemma apply_operation_frame:
  assumes "cached_default g" "\<not> renames op"
  shows "cached_default (apply_operation op g) \<and> curCol (apply_operation op g) = curCol g
       \<and> db (apply_operation op g) = db g \<and> mongo (apply_operation op g) = mongo g"
proof -
  from assms(1) have n: "curCol g \<noteq> []"
    and k: "col g = None \<or> col g = db_collection (db g) (curCol g @ ''.files'')"
    by (simp_all add: cached_default_def)
  let ?g = "g\<lparr>col := db_collection (db g) (curCol g @ ''.files'')\<rparr>"
  have ok: "cached_default ?g \<and> curCol ?g = curCol g \<and> db ?g = db g \<and> mongo ?g = mongo g"
    using n by (simp add: cached_default_def)
  show ?thesis
  proof (cases op)
    case Op_files
    then show ?thesis
      using files_fresh [OF n k] ok by simp
  next
    case (Op_findOne opts b)
    show ?thesis
    proof (cases "findOne g opts b")
      case (Inl e)
      with Op_findOne assms(1) show ?thesis by simp
    next
      case (Inr p)
      obtain r g' where p: "p = (r, g')" by (cases p)
      from findOne_state [OF Inr [unfolded p]] obtain c where
        c: "findOne_collection g opts = Inr (c, g')" ..
      have "g' = g \<or> g' = ?g"
        using c files_fresh [OF n k] by (auto simp: findOne_collection_def split: if_splits)
      then show ?thesis
        using Op_findOne Inr p ok assms(1) by auto
    qed
  next
    case (Op_collection name)
    with assms(2) have "\<not> truthy_string name"
      by (simp add: renames_def)
    then have "collection g name = Inr (db_collection (db g) (curCol g @ ''.files''),
        g\<lparr>curCol := curCol g, col := db_collection (db g) (curCol g @ ''.files'')\<rparr>)"
      using n by (simp add: collection_def Let_def)
    then show ?thesis
      using Op_collection ok by simp
  qed
qed

lemma run_operations_frame:
  assumes "\<forall>op \<in> set ops. \<not> renames op"
  shows "cached_default g \<Longrightarrow>
         cached_default (run_operations ops g) \<and> curCol (run_operations ops g) = curCol g
         \<and> db (run_operations ops g) = db g \<and> mongo (run_operations ops g) = mongo g"
  using assms
proof (induction ops arbitrary: g)
  case Nil
  then show ?case by (simp add: run_operations_def)
next
  case (Cons op ops)
  from Cons.prems have a: "\<not> renames op" and b: "\<forall>op \<in> set ops. \<not> renames op"
    by simp_all
  from apply_operation_frame [OF Cons.prems(1) a] Cons.IH [OF _ b, of "apply_operation op g"]
  show ?case
    by (simp add: run_operations_def)
qed

lemma findOne_collection_target:
  assumes "cached_default g"
  shows "map_sum id fst (findOne_collection g opts) =
           Inr (if truthy_string (root opts) \<and> root opts \<noteq> Some (curCol g)
                then mongo_Collection (mongo g) (the (root opts) @ ''.files'')
                else db_collection (db g) (curCol g @ ''.files''))"
proof -
  from assms have n: "curCol g \<noteq> []"
    and k: "col g = None \<or> col g = db_collection (db g) (curCol g @ ''.files'')"
    by (simp_all add: cached_default_def)
  show ?thesis
    using files_fresh [OF n k] by (simp add: findOne_collection_def)
qed

text \<open>
  C8 as stated fails: \<open>collection\<close> assigns \<^verbatim>\<open>this.curCol\<close> and \<^verbatim>\<open>this._col\<close>, as its
  documentation says ("Changes the default collection to `name`"). After
  \<^verbatim>\<open>collection('images')\<close> on a handle whose root was \<^verbatim>\<open>fs\<close>, a \<open>findOne\<close> without a
  root on the same handle asks for \<^verbatim>\<open>images.files\<close>, where before it asked for
  \<^verbatim>\<open>fs.files\<close>.
\<close>

theorem default_collection_frame_counterexample:
  "map_sum id fst (findOne_collection grid0 (by_filename ''report.txt''))
     = Inr (Some (Collection ''fs.files''))
   \<and> curCol (run_operations [Op_collection (Some ''images'')] grid0) = ''images''
   \<and> map_sum id fst (findOne_collection (run_operations [Op_collection (Some ''images'')] grid0)
        (by_filename ''report.txt''))
     = Inr (Some (Collection ''images.files''))"
  by (simp add: run_operations_def findOne_collection_def files_def collection_def truthy_string_def
      by_filename_def grid0_def memory_db_def Let_def)

text \<open>
  C8, amended: on a handle with a non-empty root (and a cache that agrees with it), no
  sequence of the operations \<open>files\<close>, \<open>findOne\<close> and \<open>collection\<close> without a name
  (or with an empty one) changes the root or the collection that a later \<open>findOne\<close>
  targets, whatever its options. \<open>collection\<close> with a non-empty name is the one
  operation that changes the default: it sets the root to the name and the cached
  collection to the name's files collection. (\<open>tryParseObjectId\<close>, \<open>remove\<close>,
  \<open>exist\<close> and \<open>setCacheControl\<close> assign no property of the handle; their models
  return no handle.)
\<close>

theorem default_collection_frame:
  assumes "cached_default g"
  shows "(\<forall>ops opts. (\<forall>op \<in> set ops. \<not> renames op) \<longrightarrow>
            curCol (run_operations ops g) = curCol g
            \<and> map_sum id fst (findOne_collection (run_operations ops g) opts)
                = map_sum id fst (findOne_collection g opts))
       \<and> (\<forall>n. n \<noteq> [] \<longrightarrow>
            collection g (Some n)
              = Inr (db_collection (db g) (n @ ''.files''),
                     g\<lparr>curCol := n, col := db_collection (db g) (n @ ''.files'')\<rparr>))"
proof -
  have 1: "curCol (run_operations ops g) = curCol g
        \<and> map_sum id fst (findOne_collection (run_operations ops g) opts)
            = map_sum id fst (findOne_collection g opts)"
    if "\<forall>op \<in> set ops. \<not> renames op" for ops opts
  proof -
    from run_operations_frame [OF that assms]
    have f: "cached_default (run_operations ops g)" "curCol (run_operations ops g) = curCol g"
      "db (run_operations ops g) = db g" "mongo (run_operations ops g) = mongo g"
      by simp_all
    show ?thesis
      using f(2-4) by (simp add: findOne_collection_target [OF f(1)] findOne_collection_target [OF assms])
  qed
  have 2: "collection g (Some n)
              = Inr (db_collection (db g) (n @ ''.files''),
                     g\<lparr>curCol := n, col := db_collection (db g) (n @ ''.files'')\<rparr>)"
    if "n \<noteq> []" for n
    using that by (rule collection_named)
  from 1 2 show ?thesis by blast
qed

theorem default_collection_frame_witness:
  "cached_default grid0
   \<and> \<not> renames Op_files \<and> \<not> renames (Op_findOne (by_filename ''report.txt'') True)
   \<and> \<not> renames (Op_collection None)
   \<and> curCol (run_operations
        [Op_files, Op_findOne (by_filename ''report.txt'') True, Op_collection None] grid0) = ''fs''
   \<and> map_sum id fst (findOne_collection (run_operations
        [Op_files, Op_findOne (by_filename ''report.txt'') True, Op_collection None] grid0)
        (by_filename ''a.txt'')) = Inr (Some (Collection ''fs.files''))
   \<and> collection grid0 (Some ''images'')
       = Inr (Some (Collection ''images.files''),
              grid0\<lparr>curCol := ''images'', col := Some (Collection ''images.files'')\<rparr>)"
proof -
  have a: "cached_default grid0"
    by (simp add: cached_default_def grid0_def)
  have r: "\<not> renames Op_files" "\<not> renames (Op_findOne (by_filename ''report.txt'') True)"
    "\<not> renames (Op_collection None)"
    by (simp_all add: renames_def truthy_string_def)
  have t: "map_sum id fst (findOne_collection grid0 (by_filename ''a.txt''))
      = Inr (Some (Collection ''fs.files''))"
    by (simp add: findOne_collection_def files_def collection_def by_filename_def
        truthy_string_def grid0_def memory_db_def Let_def)
  have c: "curCol grid0 = ''fs''"
    by (simp add: grid0_def)
  have d: "db_collection (db grid0) (''images'' @ ''.files'') = Some (Collection ''images.files'')"
    by (simp add: grid0_def memory_db_def)
  from default_collection_frame [OF a] r
  have "curCol (run_operations
        [Op_files, Op_findOne (by_filename ''report.txt'') True, Op_collection None] grid0) = curCol grid0
      \<and> map_sum id fst (findOne_collection (run_operations
        [Op_files, Op_findOne (by_filename ''report.txt'') True, Op_collection None] grid0)
        (by_filename ''a.txt'')) = map_sum id fst (findOne_collection grid0 (by_filename ''a.txt''))"
    by simp
  moreover from default_collection_frame [OF a]
  have "collection grid0 (Some ''images'')
       = Inr (db_collection (db grid0) (''images'' @ ''.files''),
              grid0\<lparr>curCol := ''images'', col := db_collection (db grid0) (''images'' @ ''.files'')\<rparr>)"
    by simp
  ultimately show ?thesis
    using a r t c d by simp
qed

subsection \<open>C10: the identifier that remove and exist pass on\<close>

text \<open>
  C10 as stated fails in its fallback: the code tests \<^verbatim>\<open>options._id\<close> for truthiness, so
  an \<^verbatim>\<open>_id\<close> that is present and is the empty string is passed over, and the key is the
  filename, where the claim names the raw \<^verbatim>\<open>_id\<close>.
\<close>

theorem resolve_id_counterexample:
  "remove grid0 \<lparr>opt_id = Some (IdString ''''), filename = Some ''a.txt'', root = None\<rparr>
     = Inr (Unlink (Some (IdString ''a.txt''))
              \<lparr>opt_id = Some (IdString ''''), filename = Some ''a.txt'', root = None\<rparr>)
   \<and> exist grid0 \<lparr>opt_id = Some (IdString ''''), filename = Some ''a.txt'', root = None\<rparr>
     = Inr (Exist (Some (IdString ''a.txt'')) None)
   \<and> spec_key grid0 \<lparr>opt_id = Some (IdString ''''), filename = Some ''a.txt'', root = None\<rparr>
     = Some (IdString '''')"
  by (simp add: remove_def exist_def resolve_id_def truthy_ident_def spec_key_def grid0_def
      hex_driver_def hex_ObjectID_def)

text \<open>
  C10, amended: \<open>tryParseObjectId\<close> never throws: it returns the ObjectID the driver's
  constructor builds, or \<^verbatim>\<open>false\<close> when the constructor throws. And for every options
  object given to \<open>remove\<close> or \<open>exist\<close> (on a driver with a GridStore), the key passed
  to the driver is the parsed ObjectID when \<^verbatim>\<open>_id\<close> is truthy (an ObjectID or a non-empty
  string) and parses, the raw \<^verbatim>\<open>_id\<close> when it is truthy and does not parse, and the
  filename when \<^verbatim>\<open>_id\<close> is missing or the empty string.
\<close>

theorem resolve_id_fallback:
  assumes "GridStore (mongo g) = Some gs"
  shows "(\<exists>r. tryParseObjectId g s = Inr r
            \<and> (case r of Some oid \<Rightarrow> ObjectID (mongo g) s = Inr oid
                        | None \<Rightarrow> (\<exists>e. ObjectID (mongo g) s = Inl e)))
       \<and> (\<forall>i oid. opt_id opts = Some i \<and> truthy_ident (Some i) \<and> ObjectID (mongo g) i = Inr oid \<longrightarrow>
            remove g opts = Inr (Unlink (Some (IdObject oid)) opts)
            \<and> exist g opts = Inr (Exist (Some (IdObject oid)) (root opts)))
       \<and> (\<forall>i e. opt_id opts = Some i \<and> truthy_ident (Some i) \<and> ObjectID (mongo g) i = Inl e \<longrightarrow>
            remove g opts = Inr (Unlink (Some i) opts)
            \<and> exist g opts = Inr (Exist (Some i) (root opts)))
       \<and> (\<not> truthy_ident (opt_id opts) \<longrightarrow>
            remove g opts = Inr (Unlink (map_option IdString (filename opts)) opts)
            \<and> exist g opts = Inr (Exist (map_option IdString (filename opts)) (root opts)))"
proof (intro conjI allI impI)
  show "\<exists>r. tryParseObjectId g s = Inr r
            \<and> (case r of Some oid \<Rightarrow> ObjectID (mongo g) s = Inr oid
                        | None \<Rightarrow> (\<exists>e. ObjectID (mongo g) s = Inl e))"
    by (cases "ObjectID (mongo g) s") (simp_all add: tryParseObjectId_def)
next
  fix i oid
  assume a: "opt_id opts = Some i \<and> truthy_ident (Some i) \<and> ObjectID (mongo g) i = Inr oid"
  then have "resolve_id g opts = Inr (Some (IdObject oid))"
    by (simp add: resolve_id_def parsed_or_raw_total truthy_ident_def)
  then show "remove g opts = Inr (Unlink (Some (IdObject oid)) opts)"
    and "exist g opts = Inr (Exist (Some (IdObject oid)) (root opts))"
    using assms by (simp_all add: remove_def exist_def)
next
  fix i e
  assume a: "opt_id opts = Some i \<and> truthy_ident (Some i) \<and> ObjectID (mongo g) i = Inl e"
  then have "resolve_id g opts = Inr (Some i)"
    by (simp add: resolve_id_def parsed_or_raw_total)
  then show "remove g opts = Inr (Unlink (Some i) opts)"
    and "exist g opts = Inr (Exist (Some i) (root opts))"
    using assms by (simp_all add: remove_def exist_def)
next
  assume a: "\<not> truthy_ident (opt_id opts)"
  then have "resolve_id g opts = Inr (map_option IdString (filename opts))"
    by (simp add: resolve_id_def truthy_ident_def)
  then show "remove g opts = Inr (Unlink (map_option IdString (filename opts)) opts)"
    and "exist g opts = Inr (Exist (map_option IdString (filename opts)) (root opts))"
    using assms by (simp_all add: remove_def exist_def)
qed

theorem resolve_id_fallback_witness:
  "GridStore (mongo grid0) = Some \<lparr>DEFAULT_ROOT_COLLECTION = ''fs''\<rparr>
   \<and> remove grid0 \<lparr>opt_id = Some (IdString ''00000000000000000000000a''), filename = Some ''a.txt'', root = None\<rparr>
     = Inr (Unlink (Some (IdObject (ObjectId ''00000000000000000000000a'')))
              \<lparr>opt_id = Some (IdString ''00000000000000000000000a''), filename = Some ''a.txt'', root = None\<rparr>)
   \<and> remove grid0 \<lparr>opt_id = Some (IdString ''xyz''), filename = Some ''a.txt'', root = None\<rparr>
     = Inr (Unlink (Some (IdString ''xyz''))
              \<lparr>opt_id = Some (IdString ''xyz''), filename = Some ''a.txt'', root = None\<rparr>)
   \<and> exist grid0 \<lparr>opt_id = None, filename = Some ''a.txt'', root = None\<rparr>
     = Inr (Exist (Some (IdString ''a.txt'')) None)"
  using resolve_id_fallback [of grid0 "\<lparr>DEFAULT_ROOT_COLLECTION = ''fs''\<rparr>" "IdString ''xyz''"
        "\<lparr>opt_id = Some (IdString ''00000000000000000000000a''), filename = Some ''a.txt'', root = None\<rparr>"]
    resolve_id_fallback [of grid0 "\<lparr>DEFAULT_ROOT_COLLECTION = ''fs''\<rparr>" "IdString ''xyz''"
        "\<lparr>opt_id = Some (IdString ''xyz''), filename = Some ''a.txt'', root = None\<rparr>"]
    resolve_id_fallback [of grid0 "\<lparr>DEFAULT_ROOT_COLLECTION = ''fs''\<rparr>" "IdString ''xyz''"
        "\<lparr>opt_id = None, filename = Some ''a.txt'', root = None\<rparr>"]
  by (simp add: grid0_def hex_driver_def hex_ObjectID_def truthy_ident_def is_hex_def)

subsection \<open>The sessions: what a write leaves in the store, what a read returns\<close>

lemma flush_chunks_inv:
  assumes "0 < C" "write_inv C fid rt R W p"
  shows "\<exists>p'. flush_chunks p = Some p' \<and> write_inv C fid rt R W p'
              \<and> bufferedLength (fst p') < C"
  using assms(2)
proof (induction "bufferedLength (fst p)" arbitrary: p rule: less_induct)
  case less
  obtain s st where p: "p = (s, st)" by (cases p)
  note inv = less.prems [unfolded write_inv_def p, simplified]
  show ?case
  proof (cases "C \<le> bufferedLength s")
    case False
    with less.prems p inv show ?thesis
      by (subst flush_chunks.simps) (simp add: write_inv_def)
  next
    case True
    let ?s = "s\<lparr>buffer := drop C (buffer s), bufferedLength := bufferedLength s - C,
                 nextSeq := nextSeq s + 1\<rparr>"
    let ?st = "putChunk st fid (nextSeq s) (take C (buffer s))"
    have len: "C \<le> length W - nextSeq s * C"
      using True inv by simp
    have "write_inv C fid rt R W (?s, ?st)"
      unfolding write_inv_def
    proof (intro conjI allI impI)
      show "buffer (fst (?s, ?st)) = drop (nextSeq (fst (?s, ?st)) * C) W"
        using inv by (simp add: add.commute)
      show "nextSeq (fst (?s, ?st)) * C \<le> length W"
        using len assms(1) by simp
      show "bufferedLength (fst (?s, ?st)) = length (buffer (fst (?s, ?st)))"
        using inv by simp
      fix i assume "i < nextSeq (fst (?s, ?st))"
      then show "chunks (snd (?s, ?st)) (fid, i) = Some (take C (drop (i * C) W))"
        using inv by (auto simp: putChunk_def less_Suc_eq)
    qed (use inv in \<open>simp_all add: putChunk_def\<close>)
    moreover have "bufferedLength (fst (?s, ?st)) < bufferedLength (fst p)"
      using True assms(1) p by simp
    ultimately obtain p' where "flush_chunks (?s, ?st) = Some p'"
      "write_inv C fid rt R W p'" "bufferedLength (fst p') < C"
      using less.hyps by blast
    moreover have "flush_chunks p = flush_chunks (?s, ?st)"
      using True inv p by (subst flush_chunks.simps) simp
    ultimately show ?thesis by auto
  qed
qed

lemma write_bytes_inv:
  assumes "0 < C" "write_inv C fid rt R W p"
  shows "\<exists>p'. write_bytes upd bytes p = Some (Inr p') \<and> write_inv C fid rt R (W @ bytes) p'
              \<and> bufferedLength (fst p') < C"
proof -
  obtain s st where p: "p = (s, st)" by (cases p)
  note inv = assms(2) [unfolded write_inv_def p, simplified]
  let ?s = "s\<lparr>buffer := buffer s @ bytes, bufferedLength := bufferedLength s + length bytes,
               checksum := upd (checksum s) bytes,
               totalLength := totalLength s + length bytes\<rparr>"
  have "write_inv C fid rt R (W @ bytes) (?s, st)"
    unfolding write_inv_def
  proof (intro conjI allI impI)
    show "buffer (fst (?s, st)) = drop (nextSeq (fst (?s, st)) * C) (W @ bytes)"
      using inv by simp
    fix i assume i: "i < nextSeq (fst (?s, st))"
    then have "Suc i \<le> nextSeq s"
      by simp
    then have "Suc i * C \<le> nextSeq s * C"
      by (rule mult_le_mono1)
    then have "i * C + C \<le> length W"
      using inv by simp
    then show "chunks (snd (?s, st)) (fid, i) = Some (take C (drop (i * C) (W @ bytes)))"
      using inv i by simp
  qed (use inv in simp_all)
  from flush_chunks_inv [OF assms(1) this]
  show ?thesis
    using inv p by (auto simp: write_bytes_def)
qed

lemma write_all_inv:
  assumes "0 < C"
  shows "write_inv C fid rt R W p \<Longrightarrow> bufferedLength (fst p) < C \<Longrightarrow>
         \<exists>p'. write_all upd pieces p = Some (Inr p') \<and> write_inv C fid rt R (W @ concat pieces) p'
              \<and> bufferedLength (fst p') < C"
proof (induction pieces arbitrary: W p)
  case Nil
  then show ?case by simp
next
  case (Cons bytes pieces)
  from write_bytes_inv [OF assms Cons.prems(1), of upd bytes]
  obtain p1 where 1: "write_bytes upd bytes p = Some (Inr p1)"
    "write_inv C fid rt R (W @ bytes) p1" "bufferedLength (fst p1) < C"
    by blast
  from Cons.IH [OF 1(2,3)] 1(1) show ?case
    by simp
qed

lemma end_session_chunks:
  assumes "0 < C" "write_inv C fid rt R B p" "bufferedLength (fst p) < C"
  shows "\<exists>p2 m. end_session fin now p = Inr p2
           \<and> records (snd p2) = R @ [m]
           \<and> fm_id m = fid \<and> fm_root m = rt \<and> fm_length m = length B \<and> fm_chunkSize m = C
           \<and> (\<forall>i. i * C < length B \<longrightarrow>
                 chunks (snd p2) (fid, i) = Some (take C (drop (i * C) B)))"
proof -
  obtain s st where p: "p = (s, st)" by (cases p)
  note inv = assms(2) [unfolded write_inv_def p, simplified]
  have short: "length B - nextSeq s * C < C"
    using assms(3) inv p by simp
  let ?st1 = "if buffer s \<noteq> [] then putChunk st fid (nextSeq s) (buffer s) else st"
  have ch: "chunks ?st1 (fid, i) = Some (take C (drop (i * C) B))" if i: "i * C < length B" for i
  proof (cases "i < nextSeq s")
    case True
    with inv show ?thesis by (simp add: putChunk_def)
  next
    case False
    have "i = nextSeq s"
    proof (rule ccontr)
      assume "i \<noteq> nextSeq s"
      with False have "Suc (nextSeq s) \<le> i" by simp
      then have "Suc (nextSeq s) * C \<le> i * C" by (rule mult_le_mono1)
      with i short show False by simp
    qed
    moreover have "buffer s \<noteq> []"
      using i inv \<open>i = nextSeq s\<close> by simp
    moreover have "take C (buffer s) = buffer s"
      using assms(3) inv p by simp
    ultimately show ?thesis
      using inv by (simp add: putChunk_def)
  qed
  let ?m = "\<lparr>fm_id = fid, fm_filename = w_filename s, fm_length = length B,
             fm_chunkSize = C, fm_checksum = fin (checksum s), fm_uploadDate = now,
             fm_contentType = w_contentType s, fm_root = rt\<rparr>"
  have "end_session fin now p = Inr (s\<lparr>status := Closed\<rparr>, putMetadata ?st1 ?m)"
    using inv p by (simp add: end_session_def Let_def)
  moreover have "records (putMetadata ?st1 ?m) = R @ [?m]"
    using inv by (simp add: putMetadata_def putChunk_def)
  moreover have "chunks (putMetadata ?st1 ?m) = chunks ?st1"
    by (simp add: putMetadata_def)
  ultimately show ?thesis
    using ch by (intro exI [of _ "(s\<lparr>status := Closed\<rparr>, putMetadata ?st1 ?m)"] exI [of _ ?m]) simp
qed

lemma most_recent_single: "most_recent [m] = Some m"
  by simp

lemma findMetadata_fresh:
  assumes "\<forall>r \<in> set R. fm_id r \<noteq> fid" "fm_id m = fid" "fm_root m = rt" "records st = R @ [m]"
  shows "findMetadata st rt (ById fid) = [m]"
  using assms by (auto simp: findMetadata_def filter_empty_conv)

lemma ceil_div_gt:
  assumes "0 < C"
  shows "int k > - ((- int L) div int C) - 1 \<longleftrightarrow> L \<le> k * C"
proof -
  define q where "q = (- int L) div int C"
  define r where "r = (- int L) mod int C"
  have eq: "- int L = q * int C + r" and r: "0 \<le> r" "r < int C"
    using assms by (simp_all add: q_def r_def)
  have "L \<le> k * C \<longleftrightarrow> - int k * int C \<le> - int L"
    by (simp flip: of_nat_mult)
  also have "\<dots> \<longleftrightarrow> - int k \<le> q"
  proof
    assume a: "- int k * int C \<le> - int L"
    show "- int k \<le> q"
    proof (rule ccontr)
      assume "\<not> - int k \<le> q"
      then have "q + 1 \<le> - int k" by simp
      then have "(q + 1) * int C \<le> - int k * int C"
        by (rule mult_right_mono) simp
      with a eq r show False by (simp add: algebra_simps)
    qed
  next
    assume "- int k \<le> q"
    then have "- int k * int C \<le> q * int C"
      by (rule mult_right_mono) simp
    with eq r show "- int k * int C \<le> - int L" by simp
  qed
  finally show ?thesis unfolding q_def by linarith
qed


lemma read_all_from:
  assumes C: "0 < C"
    and m: "fm_id m = fid" "fm_chunkSize m = C" "fm_length m = length B"
    and ch: "\<forall>i. i * C < length B \<longrightarrow> chunks st (fid, i) = Some (take C (drop (i * C) B))"
  shows "\<exists>slices. read_all st \<lparr>r_metadata = m, rangeStart = 0, rangeEnd = int (length B),
                                  r_nextSeq = int k, r_status = Streaming\<rparr> = Inr slices
                  \<and> concat slices = drop (k * C) B"
proof (induction "length B - k * C" arbitrary: k rule: less_induct)
  case less
  let ?s = "\<lambda>k. \<lparr>r_metadata = m, rangeStart = 0, rangeEnd = int (length B),
                  r_nextSeq = int k, r_status = Streaming\<rparr>"
  have e: "r_nextSeq (?s k) > endSeq (?s k) \<longleftrightarrow> length B \<le> k * C"
    using ceil_div_gt [OF C, where k = k and L = "length B"] m by (simp add: endSeq_def)
  show ?case
  proof (cases "length B \<le> k * C")
    case True
    with e have "nextChunk st (?s k) = Inr (None, (?s k)\<lparr>r_status := Done\<rparr>)"
      by (simp add: nextChunk_def)
    with True show ?thesis
      by (subst read_all.simps) simp
  next
    case False
    then have lt: "k * C < length B" by simp
    define payload where "payload = take C (drop (k * C) B)"
    have g: "getChunk st (fm_id m) (nat (int k)) = Some payload"
      using ch lt m by (simp add: getChunk_def payload_def)
    have "nat (int (length B) - int k * int C) = length B - k * C"
      by (simp add: nat_diff_distrib' flip: of_nat_mult)
    moreover have "length payload \<le> length B - k * C"
      by (simp add: payload_def)
    ultimately have cut: "take (nat (int (length B) - int k * int C)) payload = payload"
      by simp
    have st0: "startSeq (?s k) = 0"
      by (simp add: startSeq_def)
    have lp: "length payload \<le> length B"
      by (simp add: payload_def)
    have n: "nextChunk st (?s k) = Inr (Some payload, ?s (Suc k))"
      using e False g cut m lp
      by (simp add: nextChunk_def Let_def st0 add.commute)
    have "length B - Suc k * C < length B - k * C"
      using lt C by simp
    from less.hyps [OF this] obtain slices where
      r: "read_all st (?s (Suc k)) = Inr slices" "concat slices = drop (Suc k * C) B"
      by blast
    have "read_all st (?s k) = Inr (payload # slices)"
      using n r(1) by (subst read_all.simps) simp
    moreover have "concat (payload # slices) = drop (k * C) B"
    proof -
      have "drop (Suc k * C) B = drop C (drop (k * C) B)"
        by (simp add: add.commute)
      then have "concat (payload # slices) = take C (drop (k * C) B) @ drop C (drop (k * C) B)"
        using r(2) by (simp only: concat.simps payload_def)
      then show ?thesis
        by (simp only: append_take_drop_id)
    qed
    ultimately show ?thesis by blast
  qed
qed

lemma write_open_inv:
  assumes "0 < C" "o_chunkSize opts = Some (int C)"
  shows "\<exists>s0. write_open d0 fid (opts\<lparr>o_id := Some fid\<rparr>) = Inr s0
           \<and> write_inv C fid (case o_root opts of None \<Rightarrow> default_root | Some r \<Rightarrow> r)
                (records st) [] (s0, st)
           \<and> bufferedLength s0 < C"
  using assms by (simp add: write_open_def write_inv_def)

subsection \<open>C4: the round trip through a write and a read session\<close>

text \<open>
  C4: for every byte sequence \<open>B\<close>, pushed as any sequence of buffers \<open>pieces\<close>, and
  every chunk size \<open>C > 0\<close>: writing \<open>B\<close> through a WriteSession opened with
  \<open>chunkSize = C\<close> for an identifier that no metadata record of the store carries yet,
  ending the session, and reading the full range through a ReadSession opened for the
  same identifier returns (the write loop ends, and no step fails) a sequence of byte
  slices whose concatenation is \<open>B\<close>.
\<close>

theorem write_then_read_round_trip:
  assumes "0 < C" "o_chunkSize opts = Some (int C)"
    and "\<forall>r \<in> set (records st). fm_id r \<noteq> fid"
    and "concat pieces = B"
  shows "\<exists>slices. write_then_read upd fin d0 now st fid opts pieces = Some (Inr slices)
                  \<and> concat slices = B"
proof -
  let ?rt = "case o_root opts of None \<Rightarrow> default_root | Some r \<Rightarrow> r"
  from write_open_inv [OF assms(1,2), of d0 fid st]
  obtain s0 where s0: "write_open d0 fid (opts\<lparr>o_id := Some fid\<rparr>) = Inr s0"
    "write_inv C fid ?rt (records st) [] (s0, st)" "bufferedLength s0 < C"
    by blast
  from write_all_inv [OF assms(1) s0(2), of upd pieces] s0(3)
  obtain p1 where p1: "write_all upd pieces (s0, st) = Some (Inr p1)"
    "write_inv C fid ?rt (records st) (concat pieces) p1" "bufferedLength (fst p1) < C"
    by auto
  from end_session_chunks [OF assms(1) p1(2,3), of fin now]
  obtain p2 m where p2: "end_session fin now p1 = Inr p2" "records (snd p2) = records st @ [m]"
    "fm_id m = fid" "fm_root m = ?rt" "fm_length m = length (concat pieces)" "fm_chunkSize m = C"
    "\<forall>i. i * C < length (concat pieces) \<longrightarrow>
        chunks (snd p2) (fid, i) = Some (take C (drop (i * C) (concat pieces)))"
    by blast
  have f: "findMetadata (snd p2) ?rt (ById fid) = [m]"
    using assms(3) p2(3,4,2) by (rule findMetadata_fresh)
  have ro: "read_open (snd p2) (opts\<lparr>o_id := Some fid, o_rangeStart := None, o_rangeEnd := None\<rparr>)
      = Inr \<lparr>r_metadata = m, rangeStart = 0, rangeEnd = int (length (concat pieces)),
             r_nextSeq = int 0, r_status = Streaming\<rparr>"
    using f p2(5) by (simp add: read_open_def Let_def startSeq_def)
  from read_all_from [OF assms(1) p2(3,6,5,7), of 0]
  obtain slices where sl: "read_all (snd p2) \<lparr>r_metadata = m, rangeStart = 0,
      rangeEnd = int (length (concat pieces)), r_nextSeq = int 0, r_status = Streaming\<rparr> = Inr slices"
    "concat slices = concat pieces"
    by auto
  show ?thesis
    using s0(1) p1(1) p2(1) ro sl assms(4) by (simp add: write_then_read_def)
qed

theorem write_then_read_round_trip_witness:
  "(0::nat) < 4 \<and> o_chunkSize chunks_of_4 = Some (int 4)
   \<and> map fm_id (records store1) = [IdString ''f0'']
   \<and> concat hello = ''hello world''
   \<and> (\<exists>slices. write_then_read (\<lambda>d b. d @ b) (\<lambda>d. d) [] 9 store1 (IdString ''f1'')
                    chunks_of_4 hello = Some (Inr slices)
               \<and> concat slices = ''hello world'')"
  using write_then_read_round_trip [of 4 chunks_of_4 store1 "IdString ''f1''" hello
      "''hello world''" "\<lambda>d b. d @ b" "\<lambda>d. d" "[]" 9]
  by (simp add: chunks_of_4_def store1_def hello_def)

subsection \<open>The concrete scenario of the specification\<close>

text \<open>
  With chunk size 4, writing "hello world" (11 bytes, pushed in three buffers) stores the
  chunks "hell", "o wo", "rld" under the sequence numbers 0, 1, 2 and the length 11;
  the full range reads back as these three slices, and the range [2, 9) as "llo wor".
\<close>

lemma hello_world_slices:
  "write_then_read (\<lambda>d b. d @ b) (\<lambda>d. d) [] 0 store0 (IdString ''f1'') chunks_of_4 hello
     = Some (Inr [''hell'', ''o wo'', ''rld''])"
  by code_simp

lemma hello_world_range:
  "map_option
     (\<lambda>st. (map fm_length (records st),
            map (getChunk st (IdString ''f1'')) [0, 1, 2, 3],
            read_range st (chunks_of_4\<lparr>o_id := Some (IdString ''f1''), o_rangeStart := Some 2,
                                       o_rangeEnd := Some 9\<rparr>)))
     (write_file (\<lambda>d b. d @ b) (\<lambda>d. d) [] 0 store0 (IdString ''f1'') chunks_of_4 hello)
   = Some ([11], [Some ''hell'', Some ''o wo'', Some ''rld'', None], Inr ''llo wor'')"
  by code_simp

subsection \<open>The ReadSession on an ambiguous selection\<close>

text \<open>
  The ReadSession as the specification describes it picks a most recent record of an
  ambiguous selection.
\<close>

lemma most_recent_latest:
  "most_recent ms = Some m \<Longrightarrow> m \<in> set ms \<and> (\<forall>m' \<in> set ms. fm_uploadDate m' \<le> fm_uploadDate m)"
proof (induction ms arbitrary: m)
  case Nil
  then show ?case by simp
next
  case (Cons a ms)
  show ?case
  proof (cases "most_recent ms")
    case None
    then have "ms = []" by (cases ms) (auto split: option.splits if_splits)
    with Cons.prems show ?thesis by simp
  next
    case (Some b)
    from Cons.IH [OF Some] Cons.prems Some show ?thesis
      by (auto split: if_splits)
  qed
qed

subsection \<open>C6: opening a read session on a selection that matches nothing\<close>

text \<open>
  C6: the open operation of a read session, on a selection by identifier or by filename
  that no metadata record of the selected root matches, fails with NotFound; it does not
  succeed with an empty or null result. (The read stream is among the modules modelled
  from the specification; \<open>read_open\<close> is its open operation.)
\<close>

theorem read_open_not_found:
  "(\<forall>i. o_id opts = Some i
        \<and> (\<forall>m \<in> set (records st).
              fm_root m = (case o_root opts of None \<Rightarrow> default_root | Some r \<Rightarrow> r)
              \<longrightarrow> fm_id m \<noteq> i)
        \<longrightarrow> read_open st opts = Inl NotFound)
   \<and> (\<forall>f. o_id opts = None \<and> o_filename opts = Some f
        \<and> (\<forall>m \<in> set (records st).
              fm_root m = (case o_root opts of None \<Rightarrow> default_root | Some r \<Rightarrow> r)
              \<longrightarrow> fm_filename m \<noteq> f)
        \<longrightarrow> read_open st opts = Inl NotFound)"
  by (auto simp: read_open_def findMetadata_def filter_empty_conv split: option.splits)

theorem read_open_not_found_witness:
  "map (\<lambda>m. (fm_root m, fm_id m, fm_filename m)) (records store1)
     = [(''fs'', IdString ''f0'', ''hello.txt'')]
   \<and> read_open store1 (chunks_of_4\<lparr>o_id := Some (IdString ''f1'')\<rparr>) = Inl NotFound
   \<and> read_open store1 (chunks_of_4\<lparr>o_filename := Some ''missing.txt''\<rparr>) = Inl NotFound"
  using read_open_not_found [of "chunks_of_4\<lparr>o_id := Some (IdString ''f1'')\<rparr>" store1]
    read_open_not_found [of "chunks_of_4\<lparr>o_filename := Some ''missing.txt''\<rparr>" store1]
  by (simp add: chunks_of_4_def store1_def default_root_def)

end
